theory Spec2Isabelle
  imports Main
begin

section \<open>hawkauthlib.utils: a shallow embedding\<close>

text \<open>
  The module \<^verbatim>\<open>hawkauthlib/utils.py\<close> parses the \<^verbatim>\<open>Authorization\<close> header of a
  request, builds the normalized request and payload strings of the Hawk scheme, signs
  the request string and compares signatures.

  A Python \<^verbatim>\<open>str\<close> is modelled as a \<open>string\<close>: a list of characters whose code
  points are below 256. That is what a WSGI environment holds for a header (a native
  string of ISO-8859-1 code points); for the body text the functions only test for
  emptiness and concatenate, which does not look at the code points.
\<close>

subsection \<open>Errors\<close>

text \<open>
  Every exception the modelled functions raise is a value. The \<^verbatim>\<open>ValueError\<close>s are told
  apart by the statement that raises them:
  \<^item> \<open>Missing_auth_parameters\<close>: \<^verbatim>\<open>raise ValueError("Missing auth parameters")\<close>;
  \<^item> \<open>Not_enough_values_to_unpack\<close>: a tuple assignment \<^verbatim>\<open>a, b = xs\<close> where \<^verbatim>\<open>xs\<close>
    has one element;
  \<^item> \<open>Malformed_auth_parameters\<close>: \<^verbatim>\<open>raise ValueError('Malformed auth parameters')\<close>;
  \<^item> \<open>Unescaped_quote\<close>: \<^verbatim>\<open>raise ValueError("Unescaped quote in quoted-string")\<close>;
  \<^item> \<open>Unknown_scheme s\<close>: \<^verbatim>\<open>raise ValueError("Unknown scheme %r has no default port")\<close>.
\<close>

datatype value_error =
    Missing_auth_parameters
  | Not_enough_values_to_unpack
  | Malformed_auth_parameters
  | Unescaped_quote
  | Unknown_scheme string

datatype py_error =
    ValueError value_error
  | KeyError string
  | IndexError
  | UnicodeEncodeError

subsection \<open>The request\<close>

text \<open>
  The attributes of the WebOb request that the module reads:
  \<^verbatim>\<open>request.environ.get("HTTP_AUTHORIZATION")\<close>, \<^verbatim>\<open>request.method\<close>,
  \<^verbatim>\<open>request.path_qs\<close>, \<^verbatim>\<open>request.host\<close>, \<^verbatim>\<open>request.scheme\<close>,
  \<^verbatim>\<open>request.content_type\<close> and \<^verbatim>\<open>request.text\<close>.
\<close>

record request =
  http_authorization :: "string option"
  http_method :: string
  path_qs :: string
  host :: string
  scheme :: string
  content_type :: string
  body_text :: string

type_synonym params = "string \<rightharpoonup> string"

subsection \<open>Characters and Python's string methods\<close>

abbreviation DQUOTE :: char where "DQUOTE \<equiv> CHR 0x22"
abbreviation BACKSLASH :: char where "BACKSLASH \<equiv> CHR 0x5C"
abbreviation NEWLINE :: char where "NEWLINE \<equiv> CHR 0x0A"

text \<open>
  Whitespace as \<^verbatim>\<open>str.split\<close>, \<^verbatim>\<open>str.strip\<close> and the pattern \<^verbatim>\<open>\s\<close> see it in
  Python 3 (\<^verbatim>\<open>Py_UNICODE_ISSPACE\<close>), for code points below 256: tab to carriage
  return, the four separators 0x1C..0x1F, space, NEL and the no-break space.
\<close>

definition isspace :: "char \<Rightarrow> bool" where
  "isspace c =
     (let n = (of_char c :: nat)
      in (9 \<le> n \<and> n \<le> 13) \<or> (28 \<le> n \<and> n \<le> 32) \<or> n = 133 \<or> n = 160)"

text \<open>
  \<^verbatim>\<open>str.lower\<close> and \<^verbatim>\<open>str.upper\<close>, character by character. Below 256, \<^verbatim>\<open>lower\<close>
  moves \<^verbatim>\<open>A-Z\<close> and 0xC0..0xDE (but the multiplication sign 0xD7) up by 32. \<^verbatim>\<open>upper\<close>
  moves \<^verbatim>\<open>a-z\<close> and 0xE0..0xFE (but the division sign 0xF7) down by 32; Python maps
  the three letters 0xB5, 0xDF and 0xFF to text outside this character set, and the
  model leaves them as they are (a method name is an ASCII token).
\<close>

definition lower_char :: "char \<Rightarrow> char" where
  "lower_char c =
     (let n = (of_char c :: nat)
      in if (65 \<le> n \<and> n \<le> 90) \<or> (192 \<le> n \<and> n \<le> 222 \<and> n \<noteq> 215)
         then char_of (n + 32) else c)"

definition upper_char :: "char \<Rightarrow> char" where
  "upper_char c =
     (let n = (of_char c :: nat)
      in if (97 \<le> n \<and> n \<le> 122) \<or> (224 \<le> n \<and> n \<le> 254 \<and> n \<noteq> 247)
         then char_of (n - 32) else c)"

definition lower :: "string \<Rightarrow> string" where
  "lower s = map lower_char s"

definition upper :: "string \<Rightarrow> string" where
  "upper s = map upper_char s"

text \<open>\<^verbatim>\<open>s.strip()\<close>\<close>

definition strip :: "string \<Rightarrow> string" where
  "strip s = rev (dropWhile isspace (rev (dropWhile isspace s)))"

text \<open>
  \<^verbatim>\<open>s.split(None, 1)\<close>: leading whitespace is skipped; the first word ends at the next
  run of whitespace; what follows that run, when there is anything, is the second
  element, with its trailing whitespace kept.
\<close>

definition split_whitespace1 :: "string \<Rightarrow> string list" where
  "split_whitespace1 s =
     (let s1 = dropWhile isspace s
      in if s1 = [] then []
         else let word = takeWhile (\<lambda>c. \<not> isspace c) s1;
                  rest = dropWhile isspace (dropWhile (\<lambda>c. \<not> isspace c) s1)
              in if rest = [] then [word] else [word, rest])"

text \<open>\<^verbatim>\<open>s.split(sep)\<close> for a separator of one character: never an empty list.\<close>

fun split_char :: "char \<Rightarrow> string \<Rightarrow> string list" where
  "split_char sep [] = [[]]"
| "split_char sep (c # cs) =
     (if c = sep then [] # split_char sep cs
      else (case split_char sep cs of
              [] \<Rightarrow> [[c]]
            | w # ws \<Rightarrow> (c # w) # ws))"

text \<open>\<^verbatim>\<open>s.split(sep, 1)\<close>: cut at the first separator, if there is one.\<close>

definition split_char1 :: "char \<Rightarrow> string \<Rightarrow> string list" where
  "split_char1 sep s =
     (if sep \<in> set s
      then [takeWhile (\<lambda>c. c \<noteq> sep) s, tl (dropWhile (\<lambda>c. c \<noteq> sep) s)]
      else [s])"

text \<open>\<^verbatim>\<open>s.rsplit(sep, 1)\<close>: cut at the last separator, if there is one.\<close>

definition rsplit_char1 :: "char \<Rightarrow> string \<Rightarrow> string list" where
  "rsplit_char1 sep s =
     (if sep \<in> set s
      then [rev (tl (dropWhile (\<lambda>c. c \<noteq> sep) (rev s))),
            rev (takeWhile (\<lambda>c. c \<noteq> sep) (rev s))]
      else [s])"

text \<open>\<^verbatim>\<open>sep.join(bits)\<close>\<close>

fun join :: "string \<Rightarrow> string list \<Rightarrow> string" where
  "join sep [] = []"
| "join sep [b] = b"
| "join sep (b # c # bs) = b @ sep @ join sep (c # bs)"

text \<open>\<^verbatim>\<open>value.startswith('"')\<close> and the slice \<^verbatim>\<open>value[1:-1]\<close>\<close>

definition startswith_quote :: "string \<Rightarrow> bool" where
  "startswith_quote v = (case v of [] \<Rightarrow> False | c # _ \<Rightarrow> c = DQUOTE)"

definition slice_1_minus1 :: "string \<Rightarrow> string" where
  "slice_1_minus1 v = drop 1 (take (length v - 1) v)"

subsection \<open>Regular expressions\<close>

text \<open>
  The three patterns of the module are regular: no group is read back and no
  backreference is used, so only the question whether a match exists matters. A pattern
  is a term of \<open>regex\<close>; \<open>accepts\<close> decides by derivatives whether the whole string
  matches.
\<close>

datatype regex =
    Nomatch
  | Empty
  | Class "char \<Rightarrow> bool"
  | Seq regex regex
  | Alt regex regex
  | Star regex

abbreviation Lit :: "char \<Rightarrow> regex" where
  "Lit c \<equiv> Class (\<lambda>x. x = c)"

abbreviation Plus :: "regex \<Rightarrow> regex" where
  "Plus r \<equiv> Seq r (Star r)"

abbreviation Anything :: regex where
  "Anything \<equiv> Star (Class (\<lambda>x. True))"

fun nullable :: "regex \<Rightarrow> bool" where
  "nullable Nomatch = False"
| "nullable Empty = True"
| "nullable (Class p) = False"
| "nullable (Seq r s) = (nullable r \<and> nullable s)"
| "nullable (Alt r s) = (nullable r \<or> nullable s)"
| "nullable (Star r) = True"

fun deriv :: "char \<Rightarrow> regex \<Rightarrow> regex" where
  "deriv c Nomatch = Nomatch"
| "deriv c Empty = Nomatch"
| "deriv c (Class p) = (if p c then Empty else Nomatch)"
| "deriv c (Seq r s) =
     (if nullable r then Alt (Seq (deriv c r) s) (deriv c s) else Seq (deriv c r) s)"
| "deriv c (Alt r s) = Alt (deriv c r) (deriv c s)"
| "deriv c (Star r) = Seq (deriv c r) (Star r)"

fun accepts :: "regex \<Rightarrow> string \<Rightarrow> bool" where
  "accepts r [] = nullable r"
| "accepts r (c # cs) = accepts (deriv c r) cs"

text \<open>
  \<^verbatim>\<open>[a-zA-Z0-9_\-]\<close>, the dot (any character but a newline) and \<^verbatim>\<open>[^\\]\<close>.
\<close>

definition name_char :: "char \<Rightarrow> bool" where
  "name_char c =
     (let n = (of_char c :: nat)
      in (97 \<le> n \<and> n \<le> 122) \<or> (65 \<le> n \<and> n \<le> 90) \<or> (48 \<le> n \<and> n \<le> 57)
         \<or> c = CHR ''_'' \<or> c = CHR ''-'')"

definition dot :: "char \<Rightarrow> bool" where
  "dot c = (c \<noteq> NEWLINE)"

definition not_backslash :: "char \<Rightarrow> bool" where
  "not_backslash c = (c \<noteq> BACKSLASH)"

text \<open>
  \<^verbatim>\<open>_AUTH_PARAM_RE\<close>, compiled from
  \<^verbatim>\<open>^\s*([a-zA-Z0-9_\-]+)=(([a-zA-Z0-9_\-]+)|("")|(".*[^\\]"))\s*$\<close>.
  \<^verbatim>\<open>match\<close> anchors the pattern at the start of the string; the final \<^verbatim>\<open>$\<close> holds at
  the end of the string and before a newline that ends it, hence the last factor.
\<close>

definition AUTH_PARAM_RE :: regex where
  "AUTH_PARAM_RE =
     Seq (Star (Class isspace))
    (Seq (Plus (Class name_char))
    (Seq (Lit CHR ''='')
    (Seq (Alt (Plus (Class name_char))
         (Alt (Seq (Lit DQUOTE) (Lit DQUOTE))
              (Seq (Lit DQUOTE)
              (Seq (Star (Class dot))
              (Seq (Class not_backslash) (Lit DQUOTE))))))
    (Seq (Star (Class isspace))
         (Alt Empty (Lit NEWLINE))))))"

definition AUTH_PARAM_RE_match :: "string \<Rightarrow> bool" where
  "AUTH_PARAM_RE_match s = accepts AUTH_PARAM_RE s"

text \<open>
  \<^verbatim>\<open>_UNESC_QUOTE_RE.search(value)\<close> for the pattern \<^verbatim>\<open>(^")|([^\\]")\<close>: the first
  alternative matches only at the start of the string, the second anywhere.
\<close>

definition UNESC_QUOTE_RE_search :: "string \<Rightarrow> bool" where
  "UNESC_QUOTE_RE_search v =
     (accepts (Seq (Lit DQUOTE) Anything) v
      \<or> accepts (Seq Anything (Seq (Seq (Class not_backslash) (Lit DQUOTE)) Anything)) v)"

text \<open>
  \<^verbatim>\<open>_ESCAPED_CHAR.sub(lambda m: m.group(0)[1], value)\<close> for the pattern \<^verbatim>\<open>\\.\<close>: the
  string is scanned from the left; a backslash followed by a character that is not a
  newline is replaced by that character and the scan goes on behind it.
\<close>

fun ESCAPED_CHAR_sub :: "string \<Rightarrow> string" where
  "ESCAPED_CHAR_sub (c # d # rest) =
     (if c = BACKSLASH \<and> dot d then d # ESCAPED_CHAR_sub rest
      else c # ESCAPED_CHAR_sub (d # rest))"
| "ESCAPED_CHAR_sub s = s"

subsection \<open>What the patterns match\<close>

text \<open>
  The strings a pattern matches, as a set: the reference for \<open>accepts\<close>. \<open>star A\<close>
  holds the concatenations of finitely many strings of \<open>A\<close>.
\<close>

inductive_set star :: "string set \<Rightarrow> string set" for A :: "string set" where
  star_empty: "[] \<in> star A"
| star_more: "u \<in> A \<Longrightarrow> v \<in> star A \<Longrightarrow> u @ v \<in> star A"

fun lang :: "regex \<Rightarrow> string set" where
  "lang Nomatch = {}"
| "lang Empty = {[]}"
| "lang (Class p) = {[c] | c. p c}"
| "lang (Seq r s) = {u @ v | u v. u \<in> lang r \<and> v \<in> lang s}"
| "lang (Alt r s) = lang r \<union> lang s"
| "lang (Star r) = star (lang r)"

text \<open>
  The specification's words for the two patterns the parser tests. A quote is unescaped
  at position \<open>i\<close> of a value when it is not preceded by a backslash, position 0
  included. A chunk is a complete parameter when it is \<^verbatim>\<open>key=value\<close> inside optional
  whitespace, the key a token of \<^verbatim>\<open>[a-zA-Z0-9_-]\<close>, the value such a token, the empty
  quoted string, or a quoted string whose closing quote does not follow a backslash.
\<close>

definition spec_unescaped_quote_at :: "string \<Rightarrow> nat \<Rightarrow> bool" where
  "spec_unescaped_quote_at v i =
     (i < length v \<and> v ! i = DQUOTE \<and> (i = 0 \<or> v ! (i - 1) \<noteq> BACKSLASH))"

definition spec_param_value :: "string \<Rightarrow> bool" where
  "spec_param_value v =
     ((v \<noteq> [] \<and> list_all name_char v)
      \<or> v = [DQUOTE, DQUOTE]
      \<or> (\<exists>body x. v = DQUOTE # body @ [x, DQUOTE] \<and> list_all dot body \<and> x \<noteq> BACKSLASH))"

definition spec_param_grammar :: "string \<Rightarrow> bool" where
  "spec_param_grammar s =
     (\<exists>ws1 key v ws2 nl.
        s = ws1 @ key @ ''='' @ v @ ws2 @ nl
        \<and> list_all isspace ws1
        \<and> key \<noteq> [] \<and> list_all name_char key
        \<and> spec_param_value v
        \<and> list_all isspace ws2
        \<and> (nl = [] \<or> nl = [NEWLINE]))"

subsection \<open>parse_authz_header\<close>

text \<open>
  The loop over \<^verbatim>\<open>kvpairs_str.split(",")\<close>: a chunk is appended when the list is empty
  or its last element is a well-formed pair, and stitched onto the last element with
  the comma otherwise.
\<close>

definition stitch :: "string list \<Rightarrow> string \<Rightarrow> string list" where
  "stitch kvpairs kvpair =
     (if kvpairs = [] \<or> AUTH_PARAM_RE_match (last kvpairs)
      then kvpairs @ [kvpair]
      else butlast kvpairs @ [last kvpairs @ '','' @ kvpair])"

definition split_kvpairs :: "string \<Rightarrow> py_error + string list" where
  "split_kvpairs kvpairs_str =
     (if kvpairs_str \<noteq> []
      then (let kvpairs = foldl stitch [] (split_char CHR '','' kvpairs_str)
            in if kvpairs = [] then Inl IndexError
               else if \<not> AUTH_PARAM_RE_match (last kvpairs)
               then Inl (ValueError Malformed_auth_parameters)
               else Inr kvpairs)
      else Inr [])"

text \<open>The body of the second loop: quotes and backslash escapes are removed.\<close>

definition unquote :: "string \<Rightarrow> py_error + string" where
  "unquote v =
     (if startswith_quote v
      then (let v1 = slice_1_minus1 v
            in if UNESC_QUOTE_RE_search v1 then Inl (ValueError Unescaped_quote)
               else Inr (ESCAPED_CHAR_sub v1))
      else Inr v)"

fun collect_params :: "params \<Rightarrow> string list \<Rightarrow> py_error + params" where
  "collect_params ps [] = Inr ps"
| "collect_params ps (kvpair # kvpairs) =
     (case split_char1 CHR ''='' (strip kvpair) of
        [key, v] \<Rightarrow>
          (case unquote v of
             Inl e \<Rightarrow> Inl e
           | Inr v1 \<Rightarrow> collect_params (ps(key \<mapsto> v1)) kvpairs)
      | _ \<Rightarrow> Inl (ValueError Not_enough_values_to_unpack))"

text \<open>The statements inside \<^verbatim>\<open>try\<close>.\<close>

definition parse_authz_header_try :: "request \<Rightarrow> py_error + params" where
  "parse_authz_header_try req =
     (case http_authorization req of
        None \<Rightarrow> Inl (ValueError Missing_auth_parameters)
      | Some authz \<Rightarrow>
          (case split_whitespace1 authz of
             [scheme_name, kvpairs_str] \<Rightarrow>
               (case split_kvpairs kvpairs_str of
                  Inl e \<Rightarrow> Inl e
                | Inr kvpairs \<Rightarrow> collect_params [''scheme'' \<mapsto> scheme_name] kvpairs)
           | _ \<Rightarrow> Inl (ValueError Not_enough_values_to_unpack)))"

text \<open>
  \<^verbatim>\<open>parse_authz_header(request, *default)\<close>. The extra positional arguments are the
  list \<open>dflt\<close>; a caught \<^verbatim>\<open>ValueError\<close> returns its first element when there is one
  and is raised again otherwise. The result is the parsed map or the caller's default,
  whose type the function does not constrain.
\<close>

datatype 'd parsed = Parsed params | Default 'd

definition parse_authz_header :: "request \<Rightarrow> 'd list \<Rightarrow> py_error + 'd parsed" where
  "parse_authz_header req dflt =
     (case parse_authz_header_try req of
        Inr ps \<Rightarrow> Inr (Parsed ps)
      | Inl (ValueError v) \<Rightarrow>
          (case dflt of
             [] \<Rightarrow> Inl (ValueError v)
           | d # _ \<Rightarrow> Inr (Default d))
      | Inl e \<Rightarrow> Inl e)"

subsection \<open>get_normalized_request_string\<close>

text \<open>\<^verbatim>\<open>params[k]\<close> and \<^verbatim>\<open>params.get(k, d)\<close>\<close>

definition getitem :: "params \<Rightarrow> string \<Rightarrow> py_error + string" where
  "getitem ps k = (case ps k of None \<Rightarrow> Inl (KeyError k) | Some v \<Rightarrow> Inr v)"

definition get_or :: "params \<Rightarrow> string \<Rightarrow> string \<Rightarrow> string" where
  "get_or ps k d = (case ps k of None \<Rightarrow> d | Some v \<Rightarrow> v)"

text \<open>
  \<^verbatim>\<open>if params is None: params = parse_authz_header(request, {})\<close>: the default is the
  empty dict, so a header that is missing or malformed gives the empty dict.
\<close>

definition params_or_header :: "request \<Rightarrow> params option \<Rightarrow> py_error + params" where
  "params_or_header req params =
     (case params of
        Some ps \<Rightarrow> Inr ps
      | None \<Rightarrow>
          (case parse_authz_header req [Map.empty] of
             Inl e \<Rightarrow> Inl e
           | Inr (Parsed ps) \<Rightarrow> Inr ps
           | Inr (Default d) \<Rightarrow> Inr d))"

text \<open>
  The \<^verbatim>\<open>try\<close> around \<^verbatim>\<open>host, port = request.host.rsplit(":", 1)\<close>: the assignment
  raises \<^verbatim>\<open>ValueError\<close> when the host has no colon, and the handler takes the port
  from the scheme.
\<close>

definition host_and_port :: "request \<Rightarrow> py_error + string \<times> string" where
  "host_and_port req =
     (case rsplit_char1 CHR '':'' (host req) of
        [h, p] \<Rightarrow> Inr (h, p)
      | _ \<Rightarrow>
          (if scheme req = ''http'' then Inr (host req, ''80'')
           else if scheme req = ''https'' then Inr (host req, ''443'')
           else Inl (ValueError (Unknown_scheme (scheme req)))))"

definition get_normalized_request_string ::
  "request \<Rightarrow> params option \<Rightarrow> string option \<Rightarrow> py_error + string" where
  "get_normalized_request_string req params server_hash =
     (case params_or_header req params of
        Inl e \<Rightarrow> Inl e
      | Inr ps \<Rightarrow>
     (case getitem ps ''ts'' of
        Inl e \<Rightarrow> Inl e
      | Inr ts \<Rightarrow>
     (case getitem ps ''nonce'' of
        Inl e \<Rightarrow> Inl e
      | Inr nonce \<Rightarrow>
     (case host_and_port req of
        Inl e \<Rightarrow> Inl e
      | Inr (h, p) \<Rightarrow>
          Inr (join [NEWLINE]
            [''hawk.1.header'', ts, nonce, upper (http_method req), path_qs req,
             lower h, p,
             (case server_hash of None \<Rightarrow> get_or ps ''hash'' [] | Some sh \<Rightarrow> sh),
             get_or ps ''ext'' [],
             []])))))"

subsection \<open>get_signature\<close>

text \<open>
  The key is \<^verbatim>\<open>bytes\<close> or a \<^verbatim>\<open>str\<close>; \<^verbatim>\<open>s.encode("ascii")\<close> raises
  \<^verbatim>\<open>UnicodeEncodeError\<close> on a code point above 127 and is the identity on the others.
\<close>

datatype key = Bytes string | Str string




subsection \<open>get_normalized_payload_string\<close>

text \<open>
  \<^verbatim>\<open>None\<close> for an empty body. Otherwise the content type is
  \<^verbatim>\<open>request.content_type.split(';')[0].strip().lower()\<close>; none of these calls raises
  \<^verbatim>\<open>ValueError\<close>, so the handler around them is never entered.
\<close>

definition get_normalized_payload_string :: "request \<Rightarrow> py_error + string option" where
  "get_normalized_payload_string req =
     (if body_text req = [] then Inr None
      else (case split_char CHR '';'' (content_type req) of
              [] \<Rightarrow> Inl IndexError
            | first # _ \<Rightarrow>
                Inr (Some (join [NEWLINE]
                  [''hawk.1.payload'', lower (strip first), body_text req, []]))))"

subsection \<open>strings_differ\<close>






subsection \<open>Example requests\<close>

text \<open>
  The request and the parameters of the example in the Hawk documentation, and a request
  with a body.
\<close>

definition header_example :: request where
  "header_example =
     \<lparr>http_authorization = None, http_method = ''GET'', path_qs = ''/resource?a=1'',
      host = ''example.com'', scheme = ''http'', content_type = [], body_text = []\<rparr>"

definition params_example :: params where
  "params_example = [''ts'' \<mapsto> ''1353832234'', ''nonce'' \<mapsto> ''j4h3g2'']"

definition payload_example :: request where
  "payload_example =
     \<lparr>http_authorization = None, http_method = ''POST'', path_qs = ''/'',
      host = ''example.com'', scheme = ''http'',
      content_type = '' Text/Plain ; charset=utf-8'', body_text = ''Thank you''\<rparr>"

section \<open>Properties\<close>

subsection \<open>strings_differ\<close>













subsection \<open>get_normalized_payload_string\<close>

lemma split_char_first: "\<exists>rest. split_char sep s = takeWhile (\<lambda>c. c \<noteq> sep) s # rest"
  by (induction s) (auto split: list.splits)

text \<open>
  Claim C8. \<^verbatim>\<open>get_normalized_payload_string\<close> returns \<^verbatim>\<open>None\<close> whenever the body text
  is empty. For every request with a body it returns the tag \<^verbatim>\<open>hawk.1.payload\<close> and a
  newline, then the content type cut at its first semicolon, stripped and lowercased,
  and a newline, then the body text as it is, and a last newline.
\<close>

theorem payload_string_none_or_exact:
  "(body_text req = [] \<longrightarrow> get_normalized_payload_string req = Inr None)
   \<and> (body_text req \<noteq> [] \<longrightarrow>
        get_normalized_payload_string req =
          Inr (Some (''hawk.1.payload'' @ [NEWLINE]
                     @ lower (strip (takeWhile (\<lambda>c. c \<noteq> CHR '';'') (content_type req)))
                     @ [NEWLINE] @ body_text req @ [NEWLINE])))"
proof -
  obtain rest where
    "split_char CHR '';'' (content_type req)
       = takeWhile (\<lambda>c. c \<noteq> CHR '';'') (content_type req) # rest"
    using split_char_first by blast
  then show ?thesis by (simp add: get_normalized_payload_string_def)
qed

lemma lower_text_plain: "lower ''Text/Plain'' = ''text/plain''"
  by code_simp
lemma strip_text_plain: "strip '' Text/Plain '' = ''Text/Plain''"
  by code_simp

theorem payload_string_none_or_exact_witness:
  "get_normalized_payload_string payload_example
     = Inr (Some ''hawk.1.payload\<newline>text/plain\<newline>Thank you\<newline>'')
   \<and> get_normalized_payload_string (payload_example\<lparr>body_text := []\<rparr>) = Inr None"
  using payload_string_none_or_exact [of payload_example]
    payload_string_none_or_exact [of "payload_example\<lparr>body_text := []\<rparr>"]
  by (simp add: payload_example_def lower_text_plain strip_text_plain)

subsection \<open>get_normalized_request_string\<close>

lemma upper_GET: "upper ''GET'' = ''GET''"
  by code_simp

lemma lower_example_com: "lower ''example.com'' = ''example.com''"
  by code_simp

lemma rsplit_no_colon: "CHR '':'' \<notin> set s \<Longrightarrow> rsplit_char1 CHR '':'' s = [s]"
  by (simp add: rsplit_char1_def)

lemma takeWhile_upto_sep: "c \<notin> set xs \<Longrightarrow> takeWhile (\<lambda>x. x \<noteq> c) (xs @ c # ys) = xs"
  by (induction xs) auto

lemma dropWhile_upto_sep: "c \<notin> set xs \<Longrightarrow> dropWhile (\<lambda>x. x \<noteq> c) (xs @ c # ys) = c # ys"
  by (induction xs) auto

lemma rsplit_last_colon:
  "CHR '':'' \<notin> set p \<Longrightarrow> rsplit_char1 CHR '':'' (h @ CHR '':'' # p) = [h, p]"
proof -
  assume p: "CHR '':'' \<notin> set p"
  then have "CHR '':'' \<notin> set (rev p)" by simp
  then have tw: "takeWhile (\<lambda>c. c \<noteq> CHR '':'') (rev p @ CHR '':'' # rev h) = rev p"
    and dw: "dropWhile (\<lambda>c. c \<noteq> CHR '':'') (rev p @ CHR '':'' # rev h) = CHR '':'' # rev h"
    by (simp_all add: takeWhile_upto_sep dropWhile_upto_sep)
  show ?thesis by (simp add: rsplit_char1_def tw dw)
qed

text \<open>
  Claim C1. For a request with method \<^verbatim>\<open>GET\<close>, path and query \<^verbatim>\<open>/resource?a=1\<close>, host
  \<^verbatim>\<open>example.com\<close> without a port and scheme \<^verbatim>\<open>http\<close>, and parameters with
  \<^verbatim>\<open>ts\<close> 1353832234 and \<^verbatim>\<open>nonce\<close> j4h3g2, no \<^verbatim>\<open>hash\<close>, no \<^verbatim>\<open>ext\<close> and no server hash,
  the normalized request string is the tag, the timestamp, the nonce, the method, the
  path, the host, the port 80 and two empty fields, each followed by a newline.
\<close>

theorem request_string_exact:
  assumes "http_method req = ''GET''"
    and "path_qs req = ''/resource?a=1''"
    and "host req = ''example.com''"
    and "scheme req = ''http''"
    and "ps ''ts'' = Some ''1353832234''"
    and "ps ''nonce'' = Some ''j4h3g2''"
    and "ps ''hash'' = None"
    and "ps ''ext'' = None"
  shows "get_normalized_request_string req (Some ps) None =
    Inr ''hawk.1.header\<newline>1353832234\<newline>j4h3g2\<newline>GET\<newline>/resource?a=1\<newline>example.com\<newline>80\<newline>\<newline>\<newline>''"
proof -
  have "rsplit_char1 CHR '':'' (host req) = [''example.com'']"
    using assms(3) by (simp add: rsplit_char1_def)
  then have "host_and_port req = Inr (''example.com'', ''80'')"
    using assms(3,4) by (simp add: host_and_port_def)
  then show ?thesis
    using assms
    by (simp add: get_normalized_request_string_def params_or_header_def getitem_def
        get_or_def upper_GET lower_example_com)
qed

theorem request_string_exact_witness:
  "get_normalized_request_string header_example (Some params_example) None =
    Inr ''hawk.1.header\<newline>1353832234\<newline>j4h3g2\<newline>GET\<newline>/resource?a=1\<newline>example.com\<newline>80\<newline>\<newline>\<newline>''"
  using request_string_exact [of header_example params_example]
  by (simp add: header_example_def params_example_def)

lemma parse_missing_header:
  "http_authorization req = None \<Longrightarrow>
     parse_authz_header_try req = Inl (ValueError Missing_auth_parameters)"
  by (simp add: parse_authz_header_try_def)

text \<open>
  Claim C10. \<^verbatim>\<open>get_normalized_request_string\<close> needs the keys \<^verbatim>\<open>ts\<close> and \<^verbatim>\<open>nonce\<close>:
  it raises \<^verbatim>\<open>KeyError\<close> exactly when one of them is absent from the given parameters.
  Called without parameters on a request without an \<^verbatim>\<open>Authorization\<close> header, the
  parse falls back to the empty dict and the call raises \<^verbatim>\<open>KeyError\<close> for \<^verbatim>\<open>ts\<close>, not
  the missing-credentials \<^verbatim>\<open>ValueError\<close>.
\<close>

theorem request_string_needs_ts_and_nonce:
  "(ps ''ts'' = None \<longrightarrow>
      get_normalized_request_string req (Some ps) server_hash = Inl (KeyError ''ts''))
   \<and> (ps ''ts'' \<noteq> None \<and> ps ''nonce'' = None \<longrightarrow>
      get_normalized_request_string req (Some ps) server_hash = Inl (KeyError ''nonce''))
   \<and> ((\<exists>k. get_normalized_request_string req (Some ps) server_hash = Inl (KeyError k))
        \<longleftrightarrow> ps ''ts'' = None \<or> ps ''nonce'' = None)
   \<and> (http_authorization req = None \<longrightarrow>
      parse_authz_header req ([] :: params list) = Inl (ValueError Missing_auth_parameters)
      \<and> parse_authz_header req [Map.empty :: params] = Inr (Default Map.empty)
      \<and> get_normalized_request_string req None server_hash = Inl (KeyError ''ts''))"
proof -
  have a: "ps ''ts'' = None \<Longrightarrow>
      get_normalized_request_string req (Some ps) server_hash = Inl (KeyError ''ts'')"
    by (simp add: get_normalized_request_string_def params_or_header_def getitem_def)
  have b: "ps ''ts'' \<noteq> None \<Longrightarrow> ps ''nonce'' = None \<Longrightarrow>
      get_normalized_request_string req (Some ps) server_hash = Inl (KeyError ''nonce'')"
    by (auto simp add: get_normalized_request_string_def params_or_header_def getitem_def)
  have c: "ps ''ts'' = None \<or> ps ''nonce'' = None"
    if "get_normalized_request_string req (Some ps) server_hash = Inl (KeyError k)" for k
  proof (rule ccontr)
    assume "\<not> (ps ''ts'' = None \<or> ps ''nonce'' = None)"
    then obtain ts nonce where "ps ''ts'' = Some ts" "ps ''nonce'' = Some nonce" by auto
    then have "get_normalized_request_string req (Some ps) server_hash \<noteq> Inl (KeyError k)"
      by (cases "host_and_port req")
         (auto simp add: get_normalized_request_string_def params_or_header_def getitem_def
            host_and_port_def split: list.splits if_splits)
    with that show False by simp
  qed
  have d: "http_authorization req = None \<Longrightarrow>
      parse_authz_header req ([] :: params list) = Inl (ValueError Missing_auth_parameters)
      \<and> parse_authz_header req [Map.empty :: params] = Inr (Default Map.empty)
      \<and> get_normalized_request_string req None server_hash = Inl (KeyError ''ts'')"
    by (simp add: get_normalized_request_string_def params_or_header_def getitem_def
        parse_authz_header_def parse_missing_header)
  have e: "(\<exists>k. get_normalized_request_string req (Some ps) server_hash = Inl (KeyError k))
      \<longleftrightarrow> ps ''ts'' = None \<or> ps ''nonce'' = None"
  proof
    assume "\<exists>k. get_normalized_request_string req (Some ps) server_hash = Inl (KeyError k)"
    then obtain k where
      "get_normalized_request_string req (Some ps) server_hash = Inl (KeyError k)" ..
    then show "ps ''ts'' = None \<or> ps ''nonce'' = None" by (rule c)
  next
    assume "ps ''ts'' = None \<or> ps ''nonce'' = None"
    then show "\<exists>k. get_normalized_request_string req (Some ps) server_hash = Inl (KeyError k)"
      using a b by (cases "ps ''ts'' = None") auto
  qed
  show ?thesis
    using a b d e by (intro conjI impI) simp_all
qed

theorem request_string_needs_ts_and_nonce_witness:
  "get_normalized_request_string header_example None None = Inl (KeyError ''ts'')
   \<and> get_normalized_request_string header_example (Some [''ts'' \<mapsto> ''1'']) None
       = Inl (KeyError ''nonce'')
   \<and> get_normalized_request_string header_example (Some [''nonce'' \<mapsto> ''n'']) None
       = Inl (KeyError ''ts'')"
  using request_string_needs_ts_and_nonce [of Map.empty header_example None]
    request_string_needs_ts_and_nonce [of "[''ts'' \<mapsto> ''1'']" header_example None]
    request_string_needs_ts_and_nonce [of "[''nonce'' \<mapsto> ''n'']" header_example None]
  by (simp add: header_example_def)

lemma last_sep_decomposition:
  "c \<in> set s \<Longrightarrow> \<exists>h p. s = h @ c # p \<and> c \<notin> set p"
  by (metis split_list_last)

lemma host_and_port_explicit:
  "CHR '':'' \<notin> set p \<Longrightarrow> host req = h @ '':'' @ p \<Longrightarrow> host_and_port req = Inr (h, p)"
  by (simp add: host_and_port_def rsplit_last_colon)

lemma host_and_port_default:
  "CHR '':'' \<notin> set (host req) \<Longrightarrow>
     host_and_port req =
       (if scheme req = ''http'' then Inr (host req, ''80'')
        else if scheme req = ''https'' then Inr (host req, ''443'')
        else Inl (ValueError (Unknown_scheme (scheme req))))"
  by (simp add: host_and_port_def rsplit_char1_def)

lemma request_string_fields:
  assumes "params_or_header req params = Inr ps"
    and "ps ''ts'' = Some ts" and "ps ''nonce'' = Some nonce"
    and "host_and_port req = Inr (h, p)"
  shows "get_normalized_request_string req params server_hash =
     Inr (''hawk.1.header'' @ [NEWLINE] @ ts @ [NEWLINE] @ nonce @ [NEWLINE]
          @ upper (http_method req) @ [NEWLINE] @ path_qs req @ [NEWLINE]
          @ lower h @ [NEWLINE] @ p @ [NEWLINE]
          @ (case server_hash of None \<Rightarrow> get_or ps ''hash'' [] | Some sh \<Rightarrow> sh) @ [NEWLINE]
          @ get_or ps ''ext'' [] @ [NEWLINE])"
  using assms by (simp add: get_normalized_request_string_def getitem_def)

lemma request_string_fails:
  assumes "params_or_header req params = Inr ps"
    and "ps ''ts'' = Some ts" and "ps ''nonce'' = Some nonce"
    and "host_and_port req = Inl e"
  shows "get_normalized_request_string req params server_hash = Inl e"
  using assms by (simp add: get_normalized_request_string_def getitem_def)

text \<open>
  Claim C4. In \<^verbatim>\<open>get_normalized_request_string\<close>, once the parameters hold \<^verbatim>\<open>ts\<close> and
  \<^verbatim>\<open>nonce\<close>: when the host contains a colon, the text behind its last colon is the port
  field as it stands and the text before it, lowercased, is the host field; when the
  host has no colon, the scheme \<^verbatim>\<open>http\<close> gives the port 80, \<^verbatim>\<open>https\<close> gives 443, and
  any other scheme raises the \<^verbatim>\<open>ValueError\<close> for a scheme without a default port.
\<close>

theorem port_from_host_or_scheme:
  assumes "params_or_header req params = Inr ps"
    and "ps ''ts'' = Some ts" and "ps ''nonce'' = Some nonce"
  shows
    "(CHR '':'' \<in> set (host req) \<longrightarrow> (\<exists>h p. host req = h @ '':'' @ p \<and> CHR '':'' \<notin> set p))
     \<and> (host req = h @ '':'' @ p \<and> CHR '':'' \<notin> set p \<longrightarrow>
          get_normalized_request_string req params server_hash =
            Inr (''hawk.1.header'' @ [NEWLINE] @ ts @ [NEWLINE] @ nonce @ [NEWLINE]
              @ upper (http_method req) @ [NEWLINE] @ path_qs req @ [NEWLINE]
              @ lower h @ [NEWLINE] @ p @ [NEWLINE]
              @ (case server_hash of None \<Rightarrow> get_or ps ''hash'' [] | Some sh \<Rightarrow> sh) @ [NEWLINE]
              @ get_or ps ''ext'' [] @ [NEWLINE]))
     \<and> (CHR '':'' \<notin> set (host req) \<and> scheme req = ''http'' \<longrightarrow>
          get_normalized_request_string req params server_hash =
            Inr (''hawk.1.header'' @ [NEWLINE] @ ts @ [NEWLINE] @ nonce @ [NEWLINE]
              @ upper (http_method req) @ [NEWLINE] @ path_qs req @ [NEWLINE]
              @ lower (host req) @ [NEWLINE] @ ''80'' @ [NEWLINE]
              @ (case server_hash of None \<Rightarrow> get_or ps ''hash'' [] | Some sh \<Rightarrow> sh) @ [NEWLINE]
              @ get_or ps ''ext'' [] @ [NEWLINE]))
     \<and> (CHR '':'' \<notin> set (host req) \<and> scheme req = ''https'' \<longrightarrow>
          get_normalized_request_string req params server_hash =
            Inr (''hawk.1.header'' @ [NEWLINE] @ ts @ [NEWLINE] @ nonce @ [NEWLINE]
              @ upper (http_method req) @ [NEWLINE] @ path_qs req @ [NEWLINE]
              @ lower (host req) @ [NEWLINE] @ ''443'' @ [NEWLINE]
              @ (case server_hash of None \<Rightarrow> get_or ps ''hash'' [] | Some sh \<Rightarrow> sh) @ [NEWLINE]
              @ get_or ps ''ext'' [] @ [NEWLINE]))
     \<and> (CHR '':'' \<notin> set (host req) \<and> scheme req \<noteq> ''http'' \<and> scheme req \<noteq> ''https'' \<longrightarrow>
          get_normalized_request_string req params server_hash =
            Inl (ValueError (Unknown_scheme (scheme req))))"
proof (intro conjI impI)
  assume "CHR '':'' \<in> set (host req)"
  then obtain h p where "host req = h @ CHR '':'' # p" "CHR '':'' \<notin> set p"
    using last_sep_decomposition by fastforce
  then show "\<exists>h p. host req = h @ '':'' @ p \<and> CHR '':'' \<notin> set p" by auto
next
  assume "host req = h @ '':'' @ p \<and> CHR '':'' \<notin> set p"
  then have "host_and_port req = Inr (h, p)" by (simp add: host_and_port_explicit)
  then show "get_normalized_request_string req params server_hash =
            Inr (''hawk.1.header'' @ [NEWLINE] @ ts @ [NEWLINE] @ nonce @ [NEWLINE]
              @ upper (http_method req) @ [NEWLINE] @ path_qs req @ [NEWLINE]
              @ lower h @ [NEWLINE] @ p @ [NEWLINE]
              @ (case server_hash of None \<Rightarrow> get_or ps ''hash'' [] | Some sh \<Rightarrow> sh) @ [NEWLINE]
              @ get_or ps ''ext'' [] @ [NEWLINE])"
    by (rule request_string_fields [OF assms])
next
  assume "CHR '':'' \<notin> set (host req) \<and> scheme req = ''http''"
  then have "host_and_port req = Inr (host req, ''80'')" by (simp add: host_and_port_default)
  then show "get_normalized_request_string req params server_hash =
            Inr (''hawk.1.header'' @ [NEWLINE] @ ts @ [NEWLINE] @ nonce @ [NEWLINE]
              @ upper (http_method req) @ [NEWLINE] @ path_qs req @ [NEWLINE]
              @ lower (host req) @ [NEWLINE] @ ''80'' @ [NEWLINE]
              @ (case server_hash of None \<Rightarrow> get_or ps ''hash'' [] | Some sh \<Rightarrow> sh) @ [NEWLINE]
              @ get_or ps ''ext'' [] @ [NEWLINE])"
    by (rule request_string_fields [OF assms])
next
  assume "CHR '':'' \<notin> set (host req) \<and> scheme req = ''https''"
  then have "host_and_port req = Inr (host req, ''443'')" by (simp add: host_and_port_default)
  then show "get_normalized_request_string req params server_hash =
            Inr (''hawk.1.header'' @ [NEWLINE] @ ts @ [NEWLINE] @ nonce @ [NEWLINE]
              @ upper (http_method req) @ [NEWLINE] @ path_qs req @ [NEWLINE]
              @ lower (host req) @ [NEWLINE] @ ''443'' @ [NEWLINE]
              @ (case server_hash of None \<Rightarrow> get_or ps ''hash'' [] | Some sh \<Rightarrow> sh) @ [NEWLINE]
              @ get_or ps ''ext'' [] @ [NEWLINE])"
    by (rule request_string_fields [OF assms])
next
  assume "CHR '':'' \<notin> set (host req) \<and> scheme req \<noteq> ''http'' \<and> scheme req \<noteq> ''https''"
  then have "host_and_port req = Inl (ValueError (Unknown_scheme (scheme req)))"
    by (simp add: host_and_port_default)
  then show "get_normalized_request_string req params server_hash =
            Inl (ValueError (Unknown_scheme (scheme req)))"
    by (rule request_string_fails [OF assms])
qed

lemma lower_Example: "lower ''Example.COM'' = ''example.com''"
  by code_simp

theorem port_from_host_or_scheme_witness:
  "get_normalized_request_string (header_example\<lparr>host := ''Example.COM:8000''\<rparr>)
      (Some params_example) None
     = Inr ''hawk.1.header\<newline>1353832234\<newline>j4h3g2\<newline>GET\<newline>/resource?a=1\<newline>example.com\<newline>8000\<newline>\<newline>\<newline>''
   \<and> get_normalized_request_string (header_example\<lparr>scheme := ''https''\<rparr>)
      (Some params_example) None
     = Inr ''hawk.1.header\<newline>1353832234\<newline>j4h3g2\<newline>GET\<newline>/resource?a=1\<newline>example.com\<newline>443\<newline>\<newline>\<newline>''
   \<and> get_normalized_request_string (header_example\<lparr>scheme := ''ftp''\<rparr>)
      (Some params_example) None
     = Inl (ValueError (Unknown_scheme ''ftp''))"
proof -
  have ps: "params_or_header r (Some params_example) = Inr params_example" for r
    by (simp add: params_or_header_def)
  have ts: "params_example ''ts'' = Some ''1353832234''"
    and nonce: "params_example ''nonce'' = Some ''j4h3g2''"
    by (simp_all add: params_example_def)
  have opt: "get_or params_example ''hash'' [] = []" "get_or params_example ''ext'' [] = []"
    by (simp_all add: params_example_def get_or_def)
  note a = port_from_host_or_scheme [OF ps ts nonce,
      of "header_example\<lparr>host := ''Example.COM:8000''\<rparr>" "''Example.COM''" "''8000''" None]
  note b = port_from_host_or_scheme [OF ps ts nonce, of "header_example\<lparr>scheme := ''https''\<rparr>" "[]" "[]" None]
  note c = port_from_host_or_scheme [OF ps ts nonce, of "header_example\<lparr>scheme := ''ftp''\<rparr>" "[]" "[]" None]
  from a have 1: "get_normalized_request_string (header_example\<lparr>host := ''Example.COM:8000''\<rparr>)
      (Some params_example) None
     = Inr ''hawk.1.header\<newline>1353832234\<newline>j4h3g2\<newline>GET\<newline>/resource?a=1\<newline>example.com\<newline>8000\<newline>\<newline>\<newline>''"
    by (simp add: opt header_example_def upper_GET lower_Example)
  from b have 2: "get_normalized_request_string (header_example\<lparr>scheme := ''https''\<rparr>)
      (Some params_example) None
     = Inr ''hawk.1.header\<newline>1353832234\<newline>j4h3g2\<newline>GET\<newline>/resource?a=1\<newline>example.com\<newline>443\<newline>\<newline>\<newline>''"
    by (simp add: opt header_example_def upper_GET lower_example_com)
  from c have 3: "get_normalized_request_string (header_example\<lparr>scheme := ''ftp''\<rparr>)
      (Some params_example) None
     = Inl (ValueError (Unknown_scheme ''ftp''))"
    by (simp add: opt header_example_def)
  from 1 2 3 show ?thesis by simp
qed

subsection \<open>get_signature\<close>







subsection \<open>Regular expressions\<close>

lemma nullable_lang: "nullable r \<longleftrightarrow> [] \<in> lang r"
  by (induction r) (auto intro: star_empty)

lemma star_cons_iff:
  "c # w \<in> star A \<longleftrightarrow> (\<exists>u v. w = u @ v \<and> c # u \<in> A \<and> v \<in> star A)"
proof
  assume "c # w \<in> star A"
  then show "\<exists>u v. w = u @ v \<and> c # u \<in> A \<and> v \<in> star A"
  proof (induction "c # w" arbitrary: w rule: star.induct)
    case (star_more u v)
    show ?case
    proof (cases u)
      case Nil
      with star_more show ?thesis by simp
    next
      case (Cons a u')
      with star_more.hyps(1,2) star_more.hyps(4) show ?thesis by auto
    qed
  qed
next
  assume "\<exists>u v. w = u @ v \<and> c # u \<in> A \<and> v \<in> star A"
  then obtain u v where "w = u @ v" "c # u \<in> A" "v \<in> star A" by auto
  then have "(c # u) @ v \<in> star A" by (intro star_more)
  with \<open>w = u @ v\<close> show "c # w \<in> star A" by simp
qed

lemma deriv_lang: "w \<in> lang (deriv c r) \<longleftrightarrow> c # w \<in> lang r"
proof (induction r arbitrary: w)
  case (Seq r s)
  show ?case
  proof
    assume "w \<in> lang (deriv c (Seq r s))"
    then consider (left) u v where "w = u @ v" "u \<in> lang (deriv c r)" "v \<in> lang s"
      | (right) "nullable r" "w \<in> lang (deriv c s)"
      by (auto split: if_splits)
    then show "c # w \<in> lang (Seq r s)"
    proof cases
      case left
      then have "c # u \<in> lang r" using Seq.IH(1) by simp
      with left have "(c # u) @ v \<in> lang (Seq r s)" by (simp del: append_Cons) blast
      with left show ?thesis by simp
    next
      case right
      then have "[] \<in> lang r" "c # w \<in> lang s" using Seq.IH(2) by (simp_all add: nullable_lang)
      then have "[] @ (c # w) \<in> lang (Seq r s)" by (simp del: append_Nil) blast
      then show ?thesis by simp
    qed
  next
    assume "c # w \<in> lang (Seq r s)"
    then obtain u v where uv: "c # w = u @ v" "u \<in> lang r" "v \<in> lang s" by auto
    show "w \<in> lang (deriv c (Seq r s))"
    proof (cases u)
      case Nil
      with uv have "nullable r" "w \<in> lang (deriv c s)"
        using Seq.IH(2) by (simp_all add: nullable_lang)
      then show ?thesis by simp
    next
      case (Cons a u')
      with uv have "w = u' @ v" "u' \<in> lang (deriv c r)" using Seq.IH(1) by simp_all
      with uv(3) show ?thesis by auto
    qed
  qed
next
  case (Star r)
  show ?case
  proof
    assume "w \<in> lang (deriv c (Star r))"
    then obtain u v where "w = u @ v" "u \<in> lang (deriv c r)" "v \<in> star (lang r)" by auto
    with Star.IH show "c # w \<in> lang (Star r)" by (auto simp add: star_cons_iff)
  next
    assume "c # w \<in> lang (Star r)"
    then obtain u v where "w = u @ v" "c # u \<in> lang r" "v \<in> star (lang r)"
      by (auto simp add: star_cons_iff)
    with Star.IH show "w \<in> lang (deriv c (Star r))" by auto
  qed
qed auto

lemma accepts_lang: "accepts r w \<longleftrightarrow> w \<in> lang r"
  by (induction w arbitrary: r) (simp_all add: nullable_lang deriv_lang)

lemma star_class: "w \<in> star {[c] | c. p c} \<longleftrightarrow> list_all p w"
proof (induction w)
  case Nil
  show ?case by (simp add: star_empty)
next
  case (Cons a w)
  have "a # w \<in> star {[c] | c. p c} \<longleftrightarrow> p a \<and> w \<in> star {[c] | c. p c}"
    by (auto simp add: star_cons_iff)
  with Cons show ?case by simp
qed

lemma lang_Star_Class: "lang (Star (Class p)) = {w. list_all p w}"
  by (auto simp add: star_class)

lemma lang_Anything: "lang Anything = UNIV"
proof -
  have "w \<in> lang Anything" for w
    using lang_Star_Class [of "\<lambda>x. True"] by (simp add: list_all_iff)
  then show ?thesis by auto
qed

lemma search_at_start:
  "accepts (Seq (Lit DQUOTE) Anything) v \<longleftrightarrow> (\<exists>w. v = DQUOTE # w)"
proof -
  have "lang (Seq (Lit DQUOTE) Anything) = {DQUOTE # w | w. True}"
    unfolding lang.simps(4) lang_Anything by auto
  then show ?thesis by (simp add: accepts_lang)
qed

lemma lang_Seq_iff: "w \<in> lang (Seq r s) \<longleftrightarrow> (\<exists>u v. w = u @ v \<and> u \<in> lang r \<and> v \<in> lang s)"
  by auto

lemma lang_unescaped_pair:
  "x \<in> lang (Seq (Class not_backslash) (Lit DQUOTE)) \<longleftrightarrow> (\<exists>a. x = [a, DQUOTE] \<and> a \<noteq> BACKSLASH)"
  by (auto simp add: not_backslash_def)

lemma search_anywhere:
  "accepts (Seq Anything (Seq (Seq (Class not_backslash) (Lit DQUOTE)) Anything)) v
     \<longleftrightarrow> (\<exists>u a w. v = u @ a # DQUOTE # w \<and> a \<noteq> BACKSLASH)"
proof
  assume "accepts (Seq Anything (Seq (Seq (Class not_backslash) (Lit DQUOTE)) Anything)) v"
  then have "v \<in> lang (Seq Anything (Seq (Seq (Class not_backslash) (Lit DQUOTE)) Anything))"
    by (simp only: accepts_lang)
  then obtain u t where ut: "v = u @ t"
      "t \<in> lang (Seq (Seq (Class not_backslash) (Lit DQUOTE)) Anything)"
    using lang_Seq_iff by blast
  then obtain x w where xw: "t = x @ w" "x \<in> lang (Seq (Class not_backslash) (Lit DQUOTE))"
    using lang_Seq_iff by blast
  then obtain a where "x = [a, DQUOTE]" "a \<noteq> BACKSLASH"
    using lang_unescaped_pair by blast
  with ut(1) xw(1) show "\<exists>u a w. v = u @ a # DQUOTE # w \<and> a \<noteq> BACKSLASH" by auto
next
  assume "\<exists>u a w. v = u @ a # DQUOTE # w \<and> a \<noteq> BACKSLASH"
  then obtain u a w where v: "v = u @ ([a, DQUOTE] @ w)" and a: "a \<noteq> BACKSLASH" by auto
  from a have "[a, DQUOTE] \<in> lang (Seq (Class not_backslash) (Lit DQUOTE))"
    using lang_unescaped_pair by blast
  moreover have "w \<in> lang Anything" by (simp only: lang_Anything UNIV_I)
  ultimately have "[a, DQUOTE] @ w \<in> lang (Seq (Seq (Class not_backslash) (Lit DQUOTE)) Anything)"
    using lang_Seq_iff by blast
  moreover have "u \<in> lang Anything" by (simp only: lang_Anything UNIV_I)
  ultimately have "u @ ([a, DQUOTE] @ w)
      \<in> lang (Seq Anything (Seq (Seq (Class not_backslash) (Lit DQUOTE)) Anything))"
    using lang_Seq_iff by blast
  with v show "accepts (Seq Anything (Seq (Seq (Class not_backslash) (Lit DQUOTE)) Anything)) v"
    by (simp only: accepts_lang)
qed

lemma UNESC_QUOTE_RE_search_iff:
  "UNESC_QUOTE_RE_search v \<longleftrightarrow> (\<exists>i. spec_unescaped_quote_at v i)"
proof
  assume "UNESC_QUOTE_RE_search v"
  then consider (start) w where "v = DQUOTE # w"
    | (inner) u a w where "v = u @ a # DQUOTE # w" "a \<noteq> BACKSLASH"
    unfolding UNESC_QUOTE_RE_search_def search_at_start search_anywhere by auto
  then show "\<exists>i. spec_unescaped_quote_at v i"
  proof cases
    case start
    then have "spec_unescaped_quote_at v 0" by (simp add: spec_unescaped_quote_at_def)
    then show ?thesis ..
  next
    case inner
    then have "spec_unescaped_quote_at v (Suc (length u))"
      by (simp add: spec_unescaped_quote_at_def nth_append)
    then show ?thesis ..
  qed
next
  assume "\<exists>i. spec_unescaped_quote_at v i"
  then obtain i where i: "i < length v" "v ! i = DQUOTE" "i = 0 \<or> v ! (i - 1) \<noteq> BACKSLASH"
    by (auto simp add: spec_unescaped_quote_at_def)
  show "UNESC_QUOTE_RE_search v"
  proof (cases i)
    case 0
    with i have "v = DQUOTE # tl v" by (cases v) simp_all
    then have "\<exists>w. v = DQUOTE # w" ..
    then show ?thesis by (simp add: UNESC_QUOTE_RE_search_def search_at_start)
  next
    case (Suc j)
    with i have j: "j < length v" "Suc j < length v" "v ! j \<noteq> BACKSLASH" by simp_all
    have "v = take j v @ v ! j # v ! Suc j # drop (Suc (Suc j)) v"
      using j by (metis Cons_nth_drop_Suc id_take_nth_drop)
    with i Suc have "v = take j v @ v ! j # DQUOTE # drop (Suc (Suc j)) v" by simp
    with j(3) have "\<exists>u a w. v = u @ a # DQUOTE # w \<and> a \<noteq> BACKSLASH" by blast
    then show ?thesis by (simp add: UNESC_QUOTE_RE_search_def search_anywhere)
  qed
qed

lemma lang_Star_Class_iff: "w \<in> lang (Star (Class p)) \<longleftrightarrow> list_all p w"
  by (simp add: star_class)

lemma lang_Class_iff: "w \<in> lang (Class p) \<longleftrightarrow> (\<exists>c. w = [c] \<and> p c)"
  by simp

lemma lang_Seq_pred:
  assumes "\<And>u. u \<in> lang r \<longleftrightarrow> P u" and "\<And>v. v \<in> lang s \<longleftrightarrow> Q v"
  shows "w \<in> lang (Seq r s) \<longleftrightarrow> (\<exists>u v. w = u @ v \<and> P u \<and> Q v)"
  by (simp only: lang_Seq_iff assms)

lemma lang_Plus_Class_iff: "w \<in> lang (Plus (Class p)) \<longleftrightarrow> w \<noteq> [] \<and> list_all p w"
proof -
  have "w \<in> lang (Plus (Class p)) \<longleftrightarrow> (\<exists>u v. w = u @ v \<and> (\<exists>c. u = [c] \<and> p c) \<and> list_all p v)"
    by (rule lang_Seq_pred [OF lang_Class_iff lang_Star_Class_iff])
  also have "\<dots> \<longleftrightarrow> (\<exists>c v. w = c # v \<and> p c \<and> list_all p v)"
  proof
    assume "\<exists>u v. w = u @ v \<and> (\<exists>c. u = [c] \<and> p c) \<and> list_all p v"
    then obtain u v c where "w = u @ v" "u = [c]" "p c" "list_all p v" by blast
    then show "\<exists>c v. w = c # v \<and> p c \<and> list_all p v" by simp
  next
    assume "\<exists>c v. w = c # v \<and> p c \<and> list_all p v"
    then obtain c v where "w = [c] @ v" "p c" "list_all p v" by auto
    then show "\<exists>u v. w = u @ v \<and> (\<exists>c. u = [c] \<and> p c) \<and> list_all p v" by blast
  qed
  also have "\<dots> \<longleftrightarrow> w \<noteq> [] \<and> list_all p w"
    by (cases w) auto
  finally show ?thesis .
qed

lemma lang_Lit_iff: "w \<in> lang (Lit c) \<longleftrightarrow> w = [c]"
  by auto

lemma lang_end_iff: "w \<in> lang (Alt Empty (Lit NEWLINE)) \<longleftrightarrow> w = [] \<or> w = [NEWLINE]"
  by auto

lemma lang_Alt_iff: "w \<in> lang (Alt r s) \<longleftrightarrow> w \<in> lang r \<or> w \<in> lang s"
  by simp

lemma lang_quoted_iff:
  "w \<in> lang (Seq (Lit DQUOTE) (Seq (Star (Class dot)) (Seq (Class not_backslash) (Lit DQUOTE))))
     \<longleftrightarrow> (\<exists>body x. w = DQUOTE # body @ [x, DQUOTE] \<and> list_all dot body \<and> x \<noteq> BACKSLASH)"
proof
  assume "w \<in> lang (Seq (Lit DQUOTE) (Seq (Star (Class dot)) (Seq (Class not_backslash) (Lit DQUOTE))))"
  then obtain q t where 1: "w = q @ t" "q \<in> lang (Lit DQUOTE)"
      "t \<in> lang (Seq (Star (Class dot)) (Seq (Class not_backslash) (Lit DQUOTE)))"
    using lang_Seq_iff by blast
  then obtain body e where 2: "t = body @ e" "body \<in> lang (Star (Class dot))"
      "e \<in> lang (Seq (Class not_backslash) (Lit DQUOTE))"
    using lang_Seq_iff by blast
  then obtain x where 3: "e = [x, DQUOTE]" "x \<noteq> BACKSLASH"
    using lang_unescaped_pair by blast
  from 1(2) have "q = [DQUOTE]" by (simp only: lang_Lit_iff)
  moreover from 2(2) have "list_all dot body" by (simp only: lang_Star_Class_iff)
  ultimately show "\<exists>body x. w = DQUOTE # body @ [x, DQUOTE] \<and> list_all dot body \<and> x \<noteq> BACKSLASH"
    using 1(1) 2(1) 3 by auto
next
  assume "\<exists>body x. w = DQUOTE # body @ [x, DQUOTE] \<and> list_all dot body \<and> x \<noteq> BACKSLASH"
  then obtain body x where w: "w = [DQUOTE] @ (body @ [x, DQUOTE])"
    and b: "list_all dot body" and x: "x \<noteq> BACKSLASH"
    by auto
  from x have "[x, DQUOTE] \<in> lang (Seq (Class not_backslash) (Lit DQUOTE))"
    using lang_unescaped_pair by blast
  moreover from b have "body \<in> lang (Star (Class dot))" by (simp only: lang_Star_Class_iff)
  ultimately have "body @ [x, DQUOTE]
      \<in> lang (Seq (Star (Class dot)) (Seq (Class not_backslash) (Lit DQUOTE)))"
    using lang_Seq_iff by blast
  moreover have "[DQUOTE] \<in> lang (Lit DQUOTE)" by (simp only: lang_Lit_iff)
  ultimately have "[DQUOTE] @ (body @ [x, DQUOTE])
      \<in> lang (Seq (Lit DQUOTE) (Seq (Star (Class dot)) (Seq (Class not_backslash) (Lit DQUOTE))))"
    using lang_Seq_iff by blast
  with w show "w \<in> lang (Seq (Lit DQUOTE) (Seq (Star (Class dot)) (Seq (Class not_backslash) (Lit DQUOTE))))"
    by simp
qed

lemma lang_value_iff:
  "w \<in> lang (Alt (Plus (Class name_char))
         (Alt (Seq (Lit DQUOTE) (Lit DQUOTE))
              (Seq (Lit DQUOTE)
              (Seq (Star (Class dot))
              (Seq (Class not_backslash) (Lit DQUOTE))))))
     \<longleftrightarrow> spec_param_value w"
proof -
  have "w \<in> lang (Seq (Lit DQUOTE) (Lit DQUOTE)) \<longleftrightarrow> w = [DQUOTE, DQUOTE]"
    by auto
  then show ?thesis
    unfolding lang_Alt_iff lang_Plus_Class_iff lang_quoted_iff spec_param_value_def
    by simp
qed

lemma lang_tail_iff:
  "w \<in> lang (Seq (Star (Class isspace)) (Alt Empty (Lit NEWLINE)))
     \<longleftrightarrow> (\<exists>ws2 nl. w = ws2 @ nl \<and> list_all isspace ws2 \<and> (nl = [] \<or> nl = [NEWLINE]))"
  by (rule lang_Seq_pred [OF lang_Star_Class_iff lang_end_iff])

lemma nested_split_flat:
  "(\<exists>a r1. s = a @ r1 \<and> P1 a \<and>
      (\<exists>b r2. r1 = b @ r2 \<and> P2 b \<and>
        (\<exists>c r3. r2 = c @ r3 \<and> c = e \<and>
          (\<exists>d r4. r3 = d @ r4 \<and> P4 d \<and>
            (\<exists>f g. r4 = f @ g \<and> P5 f \<and> P6 g)))))
   \<longleftrightarrow> (\<exists>a b d f g. s = a @ b @ e @ d @ f @ g \<and> P1 a \<and> P2 b \<and> P4 d \<and> P5 f \<and> P6 g)"
  (is "?nested \<longleftrightarrow> ?flat")
proof
  assume ?nested
  then obtain a r1 b r2 c r3 d r4 f g where
    "s = a @ r1" "P1 a" "r1 = b @ r2" "P2 b" "r2 = c @ r3" "c = e" "r3 = d @ r4" "P4 d"
    "r4 = f @ g" "P5 f" "P6 g"
    by (elim exE conjE)
  then have "s = a @ b @ e @ d @ f @ g \<and> P1 a \<and> P2 b \<and> P4 d \<and> P5 f \<and> P6 g" by simp
  then show ?flat by (intro exI)
next
  assume ?flat
  then obtain a b d f g where
    "s = a @ b @ e @ d @ f @ g" "P1 a" "P2 b" "P4 d" "P5 f" "P6 g"
    by (elim exE conjE)
  then have "s = a @ (b @ e @ d @ f @ g) \<and> P1 a \<and>
      (\<exists>b' r2. b @ e @ d @ f @ g = b' @ r2 \<and> P2 b' \<and>
        (\<exists>c r3. r2 = c @ r3 \<and> c = e \<and>
          (\<exists>d' r4. r3 = d' @ r4 \<and> P4 d' \<and>
            (\<exists>f' g'. r4 = f' @ g' \<and> P5 f' \<and> P6 g'))))"
    by (intro conjI exI) (rule refl | assumption)+
  then show ?nested by (intro exI)
qed

lemma AUTH_PARAM_RE_match_iff: "AUTH_PARAM_RE_match s \<longleftrightarrow> spec_param_grammar s"
proof -
  note value_on = lang_Seq_pred [OF lang_value_iff lang_tail_iff]
  note eq_on = lang_Seq_pred [OF lang_Lit_iff value_on]
  note key_on = lang_Seq_pred [OF lang_Plus_Class_iff eq_on]
  note all = lang_Seq_pred [OF lang_Star_Class_iff key_on]
  have "s \<in> lang AUTH_PARAM_RE \<longleftrightarrow>
      (\<exists>ws1 r1. s = ws1 @ r1 \<and> list_all isspace ws1 \<and>
        (\<exists>key r2. r1 = key @ r2 \<and> (key \<noteq> [] \<and> list_all name_char key) \<and>
          (\<exists>eq r3. r2 = eq @ r3 \<and> eq = ''='' \<and>
            (\<exists>v r4. r3 = v @ r4 \<and> spec_param_value v \<and>
              (\<exists>ws2 nl. r4 = ws2 @ nl \<and> list_all isspace ws2 \<and> (nl = [] \<or> nl = [NEWLINE]))))))"
    unfolding AUTH_PARAM_RE_def by (rule all)
  also have "\<dots> \<longleftrightarrow>
      (\<exists>ws1 key v ws2 nl. s = ws1 @ key @ ''='' @ v @ ws2 @ nl
        \<and> list_all isspace ws1 \<and> (key \<noteq> [] \<and> list_all name_char key) \<and> spec_param_value v
        \<and> list_all isspace ws2 \<and> (nl = [] \<or> nl = [NEWLINE]))"
    by (rule nested_split_flat)
  also have "\<dots> \<longleftrightarrow> spec_param_grammar s"
    by (simp only: spec_param_grammar_def conj_assoc)
  finally show ?thesis by (simp only: AUTH_PARAM_RE_match_def accepts_lang)
qed

lemma AUTH_PARAM_RE_match_has_eq:
  assumes "AUTH_PARAM_RE_match s"
  shows "CHR ''='' \<in> set s"
proof -
  from assms obtain ws1 key v ws2 nl where "s = ws1 @ key @ ''='' @ v @ ws2 @ nl"
    unfolding AUTH_PARAM_RE_match_iff spec_param_grammar_def by (elim exE conjE)
  then show ?thesis by simp
qed

subsection \<open>parse_authz_header\<close>

lemma split_char_nonempty: "split_char sep s \<noteq> []"
  by (induction s) (auto split: list.splits)

lemma stitch_nonempty: "stitch kvpairs kvpair \<noteq> []"
  by (simp add: stitch_def)

lemma foldl_stitch_nonempty: "acc \<noteq> [] \<or> chunks \<noteq> [] \<Longrightarrow> foldl stitch acc chunks \<noteq> []"
  by (induction chunks arbitrary: acc) (simp_all add: stitch_nonempty)

lemma stitch_butlast:
  assumes "list_all AUTH_PARAM_RE_match (butlast kvpairs)"
  shows "list_all AUTH_PARAM_RE_match (butlast (stitch kvpairs kvpair))"
proof (cases "kvpairs = []")
  case True
  then show ?thesis by (simp add: stitch_def)
next
  case False
  then have split: "kvpairs = butlast kvpairs @ [last kvpairs]" by simp
  show ?thesis
  proof (cases "AUTH_PARAM_RE_match (last kvpairs)")
    case True
    with assms have "list_all AUTH_PARAM_RE_match (butlast kvpairs @ [last kvpairs])" by simp
    with split have "list_all AUTH_PARAM_RE_match kvpairs" by simp
    with True show ?thesis by (simp add: stitch_def)
  next
    case False
    with \<open>kvpairs \<noteq> []\<close> assms show ?thesis by (simp add: stitch_def)
  qed
qed

lemma foldl_stitch_butlast:
  "list_all AUTH_PARAM_RE_match (butlast acc) \<Longrightarrow>
     list_all AUTH_PARAM_RE_match (butlast (foldl stitch acc chunks))"
  by (induction chunks arbitrary: acc) (simp_all add: stitch_butlast)

lemma list_all_butlast_last:
  "xs \<noteq> [] \<Longrightarrow> list_all P (butlast xs) \<Longrightarrow> P (last xs) \<Longrightarrow> list_all P xs"
  by (cases xs rule: rev_cases) auto

lemma split_kvpairs_matched:
  assumes "split_kvpairs kvpairs_str = Inr kvpairs"
  shows "list_all AUTH_PARAM_RE_match kvpairs"
proof (cases "kvpairs_str = []")
  case True
  with assms show ?thesis by (simp add: split_kvpairs_def)
next
  case False
  define ks where "ks = foldl stitch [] (split_char CHR '','' kvpairs_str)"
  have "list_all AUTH_PARAM_RE_match (butlast ks)"
    unfolding ks_def by (rule foldl_stitch_butlast) simp
  moreover from assms False have "ks \<noteq> []" "AUTH_PARAM_RE_match (last ks)" "kvpairs = ks"
    by (auto simp add: split_kvpairs_def Let_def ks_def split: if_splits)
  ultimately show ?thesis by (simp add: list_all_butlast_last)
qed

lemma split_kvpairs_error:
  assumes "split_kvpairs kvpairs_str = Inl e"
  shows "e = ValueError Malformed_auth_parameters"
proof -
  have "foldl stitch [] (split_char CHR '','' kvpairs_str) \<noteq> []"
    by (rule foldl_stitch_nonempty) (simp add: split_char_nonempty)
  with assms show ?thesis
    by (auto simp add: split_kvpairs_def Let_def split: if_splits)
qed

lemma dropWhile_keeps: "c \<in> set s \<Longrightarrow> \<not> P c \<Longrightarrow> c \<in> set (dropWhile P s)"
  by (induction s) auto

lemma strip_keeps: "c \<in> set s \<Longrightarrow> \<not> isspace c \<Longrightarrow> c \<in> set (strip s)"
  by (simp add: strip_def dropWhile_keeps)

lemma eq_not_space: "\<not> isspace CHR ''=''"
  by (simp add: isspace_def)

lemma matched_pair_splits:
  assumes "AUTH_PARAM_RE_match kvpair"
  shows "\<exists>key v. split_char1 CHR ''='' (strip kvpair) = [key, v]"
proof -
  from assms have "CHR ''='' \<in> set kvpair" by (rule AUTH_PARAM_RE_match_has_eq)
  then have "CHR ''='' \<in> set (strip kvpair)" by (rule strip_keeps) (rule eq_not_space)
  then show ?thesis by (simp add: split_char1_def)
qed

lemma unquote_error: "unquote v = Inl e \<Longrightarrow> e = ValueError Unescaped_quote"
  by (auto simp add: unquote_def Let_def split: if_splits)

lemma unquote_unescaped:
  "startswith_quote v \<Longrightarrow> spec_unescaped_quote_at (slice_1_minus1 v) i \<Longrightarrow>
     unquote v = Inl (ValueError Unescaped_quote)"
  using UNESC_QUOTE_RE_search_iff [of "slice_1_minus1 v"] by (auto simp add: unquote_def Let_def)

lemma collect_params_error:
  "list_all AUTH_PARAM_RE_match kvpairs \<Longrightarrow> collect_params ps kvpairs = Inl e \<Longrightarrow>
     e = ValueError Unescaped_quote"
proof (induction kvpairs arbitrary: ps)
  case Nil
  then show ?case by simp
next
  case (Cons kvpair kvpairs)
  from Cons.prems(1) have "AUTH_PARAM_RE_match kvpair" by simp
  from matched_pair_splits [OF this]
  obtain key v where kv: "split_char1 CHR ''='' (strip kvpair) = [key, v]"
    by (elim exE)
  show ?case
  proof (cases "unquote v")
    case (Inl e')
    with kv Cons.prems(2) have "e = e'" by simp
    with Inl show ?thesis by (simp add: unquote_error)
  next
    case (Inr v1)
    with kv Cons.prems have "collect_params (ps(key \<mapsto> v1)) kvpairs = Inl e" by simp
    with Cons.IH Cons.prems(1) show ?thesis by simp
  qed
qed

lemma collect_params_unescaped:
  assumes "list_all AUTH_PARAM_RE_match kvpairs"
    and "kvpair \<in> set kvpairs"
    and "split_char1 CHR ''='' (strip kvpair) = [key, v]"
    and "unquote v = Inl (ValueError Unescaped_quote)"
  shows "collect_params ps kvpairs = Inl (ValueError Unescaped_quote)"
  using assms(1,2)
proof (induction kvpairs arbitrary: ps)
  case Nil
  then show ?case by simp
next
  case (Cons k ks)
  from Cons.prems(1) have "AUTH_PARAM_RE_match k" by simp
  from matched_pair_splits [OF this]
  obtain key' v' where kv: "split_char1 CHR ''='' (strip k) = [key', v']"
    by (elim exE)
  show ?case
  proof (cases "unquote v'")
    case (Inl e')
    then have "e' = ValueError Unescaped_quote" by (rule unquote_error)
    with Inl kv show ?thesis by simp
  next
    case (Inr v1)
    with kv assms(3,4) have "k \<noteq> kvpair" by auto
    with Cons.prems have "kvpair \<in> set ks" "list_all AUTH_PARAM_RE_match ks" by simp_all
    with Cons.IH have "collect_params (ps(key' \<mapsto> v1)) ks = Inl (ValueError Unescaped_quote)"
      by simp
    with kv Inr show ?thesis by simp
  qed
qed

lemma parse_try_error:
  assumes "parse_authz_header_try req = Inl e"
  shows "e \<in> ValueError ` {Missing_auth_parameters, Not_enough_values_to_unpack,
           Malformed_auth_parameters, Unescaped_quote}"
proof (cases "http_authorization req")
  case None
  with assms show ?thesis by (simp add: parse_authz_header_try_def)
next
  case (Some authz)
  show ?thesis
  proof (cases "\<exists>scheme_name kvpairs_str. split_whitespace1 authz = [scheme_name, kvpairs_str]")
    case False
    with assms Some have "e = ValueError Not_enough_values_to_unpack"
      by (auto simp add: parse_authz_header_try_def split: list.splits)
    then show ?thesis by simp
  next
    case True
    then obtain scheme_name kvpairs_str where
      sp: "split_whitespace1 authz = [scheme_name, kvpairs_str]" by auto
    show ?thesis
    proof (cases "split_kvpairs kvpairs_str")
      case (Inl e')
      with assms Some sp have "e = e'" by (simp add: parse_authz_header_try_def)
      with Inl show ?thesis by (simp add: split_kvpairs_error)
    next
      case (Inr kvpairs)
      with assms Some sp have
        "collect_params [''scheme'' \<mapsto> scheme_name] kvpairs = Inl e"
        by (simp add: parse_authz_header_try_def)
      moreover from Inr have "list_all AUTH_PARAM_RE_match kvpairs"
        by (rule split_kvpairs_matched)
      ultimately have "e = ValueError Unescaped_quote" by (simp add: collect_params_error)
      then show ?thesis by simp
    qed
  qed
qed

lemma parse_header_cases:
  "parse_authz_header req dflt =
     (case parse_authz_header_try req of
        Inr ps \<Rightarrow> Inr (Parsed ps)
      | Inl e \<Rightarrow> (case dflt of [] \<Rightarrow> Inl e | d # _ \<Rightarrow> Inr (Default d)))"
proof (cases "parse_authz_header_try req")
  case (Inl e)
  then obtain v where "e = ValueError v" using parse_try_error by blast
  with Inl show ?thesis by (simp add: parse_authz_header_def)
next
  case (Inr ps)
  then show ?thesis by (simp add: parse_authz_header_def)
qed

lemma parse_try_pair:
  assumes "http_authorization req = Some authz"
    and "split_whitespace1 authz = [scheme_name, kvpairs_str]"
    and "split_kvpairs kvpairs_str = Inr kvpairs"
  shows "parse_authz_header_try req = collect_params [''scheme'' \<mapsto> scheme_name] kvpairs"
  using assms by (simp add: parse_authz_header_try_def)

lemma parse_try_unescaped:
  assumes "http_authorization req = Some authz"
    and "split_whitespace1 authz = [scheme_name, kvpairs_str]"
    and "split_kvpairs kvpairs_str = Inr kvpairs"
    and "kvpair \<in> set kvpairs"
    and "split_char1 CHR ''='' (strip kvpair) = [key, v]"
    and "startswith_quote v"
    and "spec_unescaped_quote_at (slice_1_minus1 v) i"
  shows "parse_authz_header_try req = Inl (ValueError Unescaped_quote)"
proof -
  from assms(3) have m: "list_all AUTH_PARAM_RE_match kvpairs" by (rule split_kvpairs_matched)
  from assms(6,7) have u: "unquote v = Inl (ValueError Unescaped_quote)"
    by (rule unquote_unescaped)
  have "collect_params [''scheme'' \<mapsto> scheme_name] kvpairs
      = Inl (ValueError Unescaped_quote)"
    by (rule collect_params_unescaped [OF m assms(4,5) u])
  with parse_try_pair [OF assms(1-3)] show ?thesis by simp
qed

lemma split_kvpairs_malformed_iff:
  "(\<exists>e. split_kvpairs kvpairs_str = Inl e) \<longleftrightarrow>
     kvpairs_str \<noteq> []
     \<and> \<not> spec_param_grammar (last (foldl stitch [] (split_char CHR '','' kvpairs_str)))"
proof -
  have "foldl stitch [] (split_char CHR '','' kvpairs_str) \<noteq> []"
    by (rule foldl_stitch_nonempty) (simp add: split_char_nonempty)
  then show ?thesis
    by (simp add: split_kvpairs_def Let_def AUTH_PARAM_RE_match_iff)
qed

lemma parse_try_malformed:
  assumes "http_authorization req = Some authz"
    and "split_whitespace1 authz = [scheme_name, kvpairs_str]"
    and "kvpairs_str \<noteq> []"
    and "\<not> spec_param_grammar (last (foldl stitch [] (split_char CHR '','' kvpairs_str)))"
  shows "parse_authz_header_try req = Inl (ValueError Malformed_auth_parameters)"
proof -
  from assms(3,4) obtain e where e: "split_kvpairs kvpairs_str = Inl e"
    using split_kvpairs_malformed_iff by blast
  then have "e = ValueError Malformed_auth_parameters" by (rule split_kvpairs_error)
  with e assms(1,2) show ?thesis by (simp add: parse_authz_header_try_def)
qed

lemma split_whitespace1_rest_nonempty:
  assumes "split_whitespace1 authz = [scheme_name, kvpairs_str]"
  shows "kvpairs_str \<noteq> []"
proof -
  define s1 where "s1 = dropWhile isspace authz"
  define word where "word = takeWhile (\<lambda>c. \<not> isspace c) s1"
  define rest where "rest = dropWhile isspace (dropWhile (\<lambda>c. \<not> isspace c) s1)"
  have "split_whitespace1 authz =
      (if s1 = [] then [] else if rest = [] then [word] else [word, rest])"
    unfolding split_whitespace1_def Let_def s1_def word_def rest_def ..
  with assms have "(if s1 = [] then [] else if rest = [] then [word] else [word, rest])
      = [scheme_name, kvpairs_str]"
    by (simp only:)
  then show ?thesis
    by (cases "s1 = []"; cases "rest = []") simp_all
qed

lemma split_whitespace1_one_word:
  assumes "authz \<noteq> []" and "list_all (\<lambda>c. \<not> isspace c) authz"
  shows "split_whitespace1 authz = [authz]"
proof -
  from assms have a: "dropWhile isspace authz = authz"
    by (cases authz) simp_all
  from assms(2) have b: "takeWhile (\<lambda>c. \<not> isspace c) authz = authz"
    and c: "dropWhile (\<lambda>c. \<not> isspace c) authz = []"
    by (simp_all add: list_all_iff)
  show ?thesis
    unfolding split_whitespace1_def Let_def a b c using assms(1) by simp
qed

text \<open>
  Claim C3, which the code does not meet. For a header that is a scheme name and nothing
  else, such as \<^verbatim>\<open>Hawk\<close>, \<^verbatim>\<open>authz.split(None, 1)\<close> has one element, and the assignment
  to \<^verbatim>\<open>scheme, kvpairs_str\<close> raises \<^verbatim>\<open>ValueError\<close>: without a default the call raises,
  with one it returns the default. No parameter map with only the scheme is returned.
  When the assignment succeeds the parameter string is never empty, so the test
  \<^verbatim>\<open>if kvpairs_str:\<close>, which would let an empty parameter string through, always holds.
\<close>

theorem parse_scheme_only_raises:
  "(http_authorization req = Some authz \<and> authz \<noteq> [] \<and> list_all (\<lambda>c. \<not> isspace c) authz
      \<longrightarrow> parse_authz_header req ([] :: 'd list) = Inl (ValueError Not_enough_values_to_unpack)
        \<and> parse_authz_header req ((d :: 'd) # ds) = Inr (Default d))
   \<and> (http_authorization req = Some ''Hawk''
      \<longrightarrow> parse_authz_header req ([] :: 'd list) = Inl (ValueError Not_enough_values_to_unpack)
        \<and> parse_authz_header req ((d :: 'd) # ds) = Inr (Default d))
   \<and> (split_whitespace1 authz = [scheme_name, kvpairs_str] \<longrightarrow> kvpairs_str \<noteq> [])"
proof -
  have guard: "split_whitespace1 authz = [scheme_name, kvpairs_str] \<longrightarrow> kvpairs_str \<noteq> []"
    by (rule impI) (rule split_whitespace1_rest_nonempty)
  have general: "parse_authz_header req ([] :: 'd list) = Inl (ValueError Not_enough_values_to_unpack)
      \<and> parse_authz_header req (d # ds) = Inr (Default d)"
    if "http_authorization req = Some authz" "authz \<noteq> []"
      "list_all (\<lambda>c. \<not> isspace c) authz" for authz
  proof -
    from that(2,3) have "split_whitespace1 authz = [authz]"
      by (rule split_whitespace1_one_word)
    with that(1) have "parse_authz_header_try req = Inl (ValueError Not_enough_values_to_unpack)"
      by (simp add: parse_authz_header_try_def)
    then show ?thesis by (simp add: parse_authz_header_def)
  qed
  have hawk: "''Hawk'' \<noteq> [] \<and> list_all (\<lambda>c. \<not> isspace c) ''Hawk''"
    by (simp add: isspace_def)
  from general [of authz] general [of "''Hawk''"] hawk guard show ?thesis by simp
qed

theorem parse_scheme_only_raises_witness:
  "parse_authz_header (header_example\<lparr>http_authorization := Some ''Hawk''\<rparr>) ([] :: params list)
     = Inl (ValueError Not_enough_values_to_unpack)
   \<and> parse_authz_header (header_example\<lparr>http_authorization := Some ''Hawk''\<rparr>) [Map.empty :: params]
     = Inr (Default Map.empty)"
  using parse_scheme_only_raises
    [where req = "header_example\<lparr>http_authorization := Some ''Hawk''\<rparr>"
       and authz = "''Hawk''" and d = "Map.empty :: params" and ds = "[]"]
  by (simp add: isspace_def)

lemma stitch_last_unmatched:
  "\<not> AUTH_PARAM_RE_match c \<Longrightarrow> stitch (cs @ [c]) d = cs @ [c @ '','' @ d]"
  by (simp add: stitch_def)

lemma stitch_last_matched:
  "AUTH_PARAM_RE_match c \<Longrightarrow> stitch (cs @ [c]) d = cs @ [c, d]"
  by (simp add: stitch_def)

lemma comma_header_split:
  "split_whitespace1
     (''Hawk a='' @ DQUOTE # ''x,y'' @ DQUOTE # '', b='' @ DQUOTE # ''z'' @ [DQUOTE])
   = [''Hawk'', ''a='' @ DQUOTE # ''x,y'' @ DQUOTE # '', b='' @ DQUOTE # ''z'' @ [DQUOTE]]"
  by code_simp

lemma comma_chunks:
  "split_char CHR '',''
     (''a='' @ DQUOTE # ''x,y'' @ DQUOTE # '', b='' @ DQUOTE # ''z'' @ [DQUOTE])
   = [''a='' @ DQUOTE # ''x'', ''y'' @ [DQUOTE], '' b='' @ DQUOTE # ''z'' @ [DQUOTE]]"
  by code_simp

lemma comma_first_chunk_unmatched: "\<not> AUTH_PARAM_RE_match (''a='' @ DQUOTE # ''x'')"
  by code_simp

lemma comma_stitched:
  "foldl stitch [] [''a='' @ DQUOTE # ''x'', ''y'' @ [DQUOTE], '' b='' @ DQUOTE # ''z'' @ [DQUOTE]]
   = [''a='' @ DQUOTE # ''x,y'' @ [DQUOTE], '' b='' @ DQUOTE # ''z'' @ [DQUOTE]]"
  by code_simp

lemma comma_kvpairs:
  "split_kvpairs (''a='' @ DQUOTE # ''x,y'' @ DQUOTE # '', b='' @ DQUOTE # ''z'' @ [DQUOTE])
   = Inr [''a='' @ DQUOTE # ''x,y'' @ [DQUOTE], '' b='' @ DQUOTE # ''z'' @ [DQUOTE]]"
  by code_simp

lemma comma_pair_a:
  "split_char1 CHR ''='' (strip (''a='' @ DQUOTE # ''x,y'' @ [DQUOTE]))
     = [''a'', DQUOTE # ''x,y'' @ [DQUOTE]]"
  "unquote (DQUOTE # ''x,y'' @ [DQUOTE]) = Inr ''x,y''"
  by code_simp+

lemma comma_pair_b:
  "split_char1 CHR ''='' (strip ('' b='' @ DQUOTE # ''z'' @ [DQUOTE]))
     = [''b'', DQUOTE # ''z'' @ [DQUOTE]]"
  "unquote (DQUOTE # ''z'' @ [DQUOTE]) = Inr ''z''"
  by code_simp+

lemma comma_params:
  "collect_params [''scheme'' \<mapsto> ''Hawk'']
     [''a='' @ DQUOTE # ''x,y'' @ [DQUOTE], '' b='' @ DQUOTE # ''z'' @ [DQUOTE]]
   = Inr [''scheme'' \<mapsto> ''Hawk'', ''a'' \<mapsto> ''x,y'', ''b'' \<mapsto> ''z'']"
  by (simp only: collect_params.simps comma_pair_a comma_pair_b list.case sum.case)

text \<open>
  Claim C5. The header \<^verbatim>\<open>Hawk a="x,y", b="z"\<close> parses to the map of \<^verbatim>\<open>scheme\<close> to
  \<^verbatim>\<open>Hawk\<close>, \<^verbatim>\<open>a\<close> to \<^verbatim>\<open>x,y\<close> and \<^verbatim>\<open>b\<close> to \<^verbatim>\<open>z\<close>. The comma inside the quotes does not
  split the parameter: of the three chunks between commas the first is not a well-formed
  pair, so the second is joined to it with the comma, and the joined chunk is tested
  again before the third is appended. In general a chunk is joined to the last element
  when that element fails the grammar and appended when it matches.
\<close>

theorem parse_comma_inside_quotes:
  "(http_authorization req
      = Some (''Hawk a='' @ DQUOTE # ''x,y'' @ DQUOTE # '', b='' @ DQUOTE # ''z'' @ [DQUOTE])
    \<longrightarrow> parse_authz_header req dflt
        = Inr (Parsed [''scheme'' \<mapsto> ''Hawk'', ''a'' \<mapsto> ''x,y'', ''b'' \<mapsto> ''z'']))
   \<and> split_char CHR '',''
        (''a='' @ DQUOTE # ''x,y'' @ DQUOTE # '', b='' @ DQUOTE # ''z'' @ [DQUOTE])
      = [''a='' @ DQUOTE # ''x'', ''y'' @ [DQUOTE], '' b='' @ DQUOTE # ''z'' @ [DQUOTE]]
   \<and> foldl stitch []
        [''a='' @ DQUOTE # ''x'', ''y'' @ [DQUOTE], '' b='' @ DQUOTE # ''z'' @ [DQUOTE]]
      = [''a='' @ DQUOTE # ''x,y'' @ [DQUOTE], '' b='' @ DQUOTE # ''z'' @ [DQUOTE]]
   \<and> (\<not> AUTH_PARAM_RE_match c \<longrightarrow> stitch (cs @ [c]) chunk = cs @ [c @ '','' @ chunk])
   \<and> (AUTH_PARAM_RE_match c \<longrightarrow> stitch (cs @ [c]) chunk = cs @ [c, chunk])"
proof (intro conjI impI)
  assume "http_authorization req
      = Some (''Hawk a='' @ DQUOTE # ''x,y'' @ DQUOTE # '', b='' @ DQUOTE # ''z'' @ [DQUOTE])"
  then have "parse_authz_header_try req
      = Inr [''scheme'' \<mapsto> ''Hawk'', ''a'' \<mapsto> ''x,y'', ''b'' \<mapsto> ''z'']"
    using parse_try_pair [OF _ comma_header_split comma_kvpairs] comma_params by simp
  then show "parse_authz_header req dflt
        = Inr (Parsed [''scheme'' \<mapsto> ''Hawk'', ''a'' \<mapsto> ''x,y'', ''b'' \<mapsto> ''z''])"
    by (simp add: parse_authz_header_def)
next
  show "split_char CHR '',''
        (''a='' @ DQUOTE # ''x,y'' @ DQUOTE # '', b='' @ DQUOTE # ''z'' @ [DQUOTE])
      = [''a='' @ DQUOTE # ''x'', ''y'' @ [DQUOTE], '' b='' @ DQUOTE # ''z'' @ [DQUOTE]]"
    by (rule comma_chunks)
next
  show "foldl stitch []
        [''a='' @ DQUOTE # ''x'', ''y'' @ [DQUOTE], '' b='' @ DQUOTE # ''z'' @ [DQUOTE]]
      = [''a='' @ DQUOTE # ''x,y'' @ [DQUOTE], '' b='' @ DQUOTE # ''z'' @ [DQUOTE]]"
    by (rule comma_stitched)
next
  assume "\<not> AUTH_PARAM_RE_match c"
  then show "stitch (cs @ [c]) chunk = cs @ [c @ '','' @ chunk]"
    by (rule stitch_last_unmatched)
next
  assume "AUTH_PARAM_RE_match c"
  then show "stitch (cs @ [c]) chunk = cs @ [c, chunk]"
    by (rule stitch_last_matched)
qed

theorem parse_comma_inside_quotes_witness:
  "parse_authz_header
     (header_example\<lparr>http_authorization :=
        Some (''Hawk a='' @ DQUOTE # ''x,y'' @ DQUOTE # '', b='' @ DQUOTE # ''z'' @ [DQUOTE])\<rparr>)
     ([] :: unit list)
     = Inr (Parsed [''scheme'' \<mapsto> ''Hawk'', ''a'' \<mapsto> ''x,y'', ''b'' \<mapsto> ''z''])
   \<and> stitch [''a='' @ DQUOTE # ''x''] (''y'' @ [DQUOTE]) = [''a='' @ DQUOTE # ''x,y'' @ [DQUOTE]]"
  using parse_comma_inside_quotes
    [of "header_example\<lparr>http_authorization :=
        Some (''Hawk a='' @ DQUOTE # ''x,y'' @ DQUOTE # '', b='' @ DQUOTE # ''z'' @ [DQUOTE])\<rparr>"
      "[] :: unit list" "''a='' @ DQUOTE # ''x''" "[]" "''y'' @ [DQUOTE]"]
    comma_first_chunk_unmatched
  by simp

lemma escaped_header:
  "split_whitespace1 (''Hawk k='' @ DQUOTE # ''a'' @ BACKSLASH # DQUOTE # ''b'' @ [DQUOTE])
     = [''Hawk'', ''k='' @ DQUOTE # ''a'' @ BACKSLASH # DQUOTE # ''b'' @ [DQUOTE]]"
  "split_kvpairs (''k='' @ DQUOTE # ''a'' @ BACKSLASH # DQUOTE # ''b'' @ [DQUOTE])
     = Inr [''k='' @ DQUOTE # ''a'' @ BACKSLASH # DQUOTE # ''b'' @ [DQUOTE]]"
  by code_simp+

lemma escaped_pair:
  "split_char1 CHR ''='' (strip (''k='' @ DQUOTE # ''a'' @ BACKSLASH # DQUOTE # ''b'' @ [DQUOTE]))
     = [''k'', DQUOTE # ''a'' @ BACKSLASH # DQUOTE # ''b'' @ [DQUOTE]]"
  "unquote (DQUOTE # ''a'' @ BACKSLASH # DQUOTE # ''b'' @ [DQUOTE]) = Inr (''a'' @ DQUOTE # ''b'')"
  by code_simp+

lemma escaped_params:
  "collect_params [''scheme'' \<mapsto> ''Hawk'']
     [''k='' @ DQUOTE # ''a'' @ BACKSLASH # DQUOTE # ''b'' @ [DQUOTE]]
   = Inr [''scheme'' \<mapsto> ''Hawk'', ''k'' \<mapsto> ''a'' @ DQUOTE # ''b'']"
  by (simp only: collect_params.simps escaped_pair list.case sum.case)

lemma empty_header:
  "split_whitespace1 (''Hawk k='' @ [DQUOTE, DQUOTE]) = [''Hawk'', ''k='' @ [DQUOTE, DQUOTE]]"
  "split_kvpairs (''k='' @ [DQUOTE, DQUOTE]) = Inr [''k='' @ [DQUOTE, DQUOTE]]"
  by code_simp+

lemma empty_pair:
  "split_char1 CHR ''='' (strip (''k='' @ [DQUOTE, DQUOTE])) = [''k'', [DQUOTE, DQUOTE]]"
  "unquote [DQUOTE, DQUOTE] = Inr []"
  by code_simp+

lemma empty_params:
  "collect_params [''scheme'' \<mapsto> ''Hawk''] [''k='' @ [DQUOTE, DQUOTE]]
   = Inr [''scheme'' \<mapsto> ''Hawk'', ''k'' \<mapsto> []]"
  by (simp only: collect_params.simps empty_pair list.case sum.case)

lemma unquote_escaped:
  "startswith_quote v \<Longrightarrow> \<forall>i. \<not> spec_unescaped_quote_at (slice_1_minus1 v) i \<Longrightarrow>
     unquote v = Inr (ESCAPED_CHAR_sub (slice_1_minus1 v))"
  using UNESC_QUOTE_RE_search_iff [of "slice_1_minus1 v"] by (auto simp add: unquote_def Let_def)

text \<open>
  Claim C6. Decoding of quoted values. The header \<^verbatim>\<open>Hawk k="a\"b"\<close>, whose value holds a
  backslash and a quote, gives \<^verbatim>\<open>k\<close> the value \<^verbatim>\<open>a"b\<close>; the header \<^verbatim>\<open>Hawk k=""\<close> gives
  \<^verbatim>\<open>k\<close> the empty string. Whenever a pair accepted by the grammar has a quoted value
  whose text between the outer quotes holds a quote that is at position 0 or not preceded
  by a backslash, the parse raises the \<^verbatim>\<open>ValueError\<close> for an unescaped quote; a quoted
  value without such a quote is decoded by resolving its backslash escapes.
\<close>

theorem parse_quoted_values:
  "(http_authorization req
      = Some (''Hawk k='' @ DQUOTE # ''a'' @ BACKSLASH # DQUOTE # ''b'' @ [DQUOTE])
    \<longrightarrow> parse_authz_header req dflt
        = Inr (Parsed [''scheme'' \<mapsto> ''Hawk'', ''k'' \<mapsto> ''a'' @ DQUOTE # ''b'']))
   \<and> (http_authorization req = Some (''Hawk k='' @ [DQUOTE, DQUOTE])
    \<longrightarrow> parse_authz_header req dflt = Inr (Parsed [''scheme'' \<mapsto> ''Hawk'', ''k'' \<mapsto> []]))
   \<and> (http_authorization req = Some authz
      \<and> split_whitespace1 authz = [scheme_name, kvpairs_str]
      \<and> split_kvpairs kvpairs_str = Inr kvpairs
      \<and> kvpair \<in> set kvpairs
      \<and> split_char1 CHR ''='' (strip kvpair) = [key, v]
      \<and> startswith_quote v
      \<and> spec_unescaped_quote_at (slice_1_minus1 v) i
    \<longrightarrow> parse_authz_header req ([] :: 'd list) = Inl (ValueError Unescaped_quote))
   \<and> (startswith_quote v \<and> (\<forall>i. \<not> spec_unescaped_quote_at (slice_1_minus1 v) i)
    \<longrightarrow> unquote v = Inr (ESCAPED_CHAR_sub (slice_1_minus1 v)))"
proof (intro conjI impI)
  assume "http_authorization req
      = Some (''Hawk k='' @ DQUOTE # ''a'' @ BACKSLASH # DQUOTE # ''b'' @ [DQUOTE])"
  then have "parse_authz_header_try req
      = Inr [''scheme'' \<mapsto> ''Hawk'', ''k'' \<mapsto> ''a'' @ DQUOTE # ''b'']"
    using parse_try_pair [OF _ escaped_header] escaped_params by simp
  then show "parse_authz_header req dflt
        = Inr (Parsed [''scheme'' \<mapsto> ''Hawk'', ''k'' \<mapsto> ''a'' @ DQUOTE # ''b''])"
    by (simp add: parse_authz_header_def)
next
  assume "http_authorization req = Some (''Hawk k='' @ [DQUOTE, DQUOTE])"
  then have "parse_authz_header_try req = Inr [''scheme'' \<mapsto> ''Hawk'', ''k'' \<mapsto> []]"
    using parse_try_pair [OF _ empty_header] empty_params by simp
  then show "parse_authz_header req dflt = Inr (Parsed [''scheme'' \<mapsto> ''Hawk'', ''k'' \<mapsto> []])"
    by (simp add: parse_authz_header_def)
next
  assume a: "http_authorization req = Some authz
      \<and> split_whitespace1 authz = [scheme_name, kvpairs_str]
      \<and> split_kvpairs kvpairs_str = Inr kvpairs
      \<and> kvpair \<in> set kvpairs
      \<and> split_char1 CHR ''='' (strip kvpair) = [key, v]
      \<and> startswith_quote v
      \<and> spec_unescaped_quote_at (slice_1_minus1 v) i"
  have "parse_authz_header_try req = Inl (ValueError Unescaped_quote)"
    by (rule parse_try_unescaped [of req authz scheme_name kvpairs_str kvpairs kvpair key v i])
      (simp_all only: a)
  then show "parse_authz_header req ([] :: 'd list) = Inl (ValueError Unescaped_quote)"
    by (simp add: parse_authz_header_def)
next
  assume "startswith_quote v \<and> (\<forall>i. \<not> spec_unescaped_quote_at (slice_1_minus1 v) i)"
  then show "unquote v = Inr (ESCAPED_CHAR_sub (slice_1_minus1 v))"
    by (simp add: unquote_escaped)
qed

lemma interior_header:
  "split_whitespace1 (''Hawk k='' @ DQUOTE # ''a'' @ DQUOTE # ''b'' @ [DQUOTE])
     = [''Hawk'', ''k='' @ DQUOTE # ''a'' @ DQUOTE # ''b'' @ [DQUOTE]]"
  "split_kvpairs (''k='' @ DQUOTE # ''a'' @ DQUOTE # ''b'' @ [DQUOTE])
     = Inr [''k='' @ DQUOTE # ''a'' @ DQUOTE # ''b'' @ [DQUOTE]]"
  "split_char1 CHR ''='' (strip (''k='' @ DQUOTE # ''a'' @ DQUOTE # ''b'' @ [DQUOTE]))
     = [''k'', DQUOTE # ''a'' @ DQUOTE # ''b'' @ [DQUOTE]]"
  "startswith_quote (DQUOTE # ''a'' @ DQUOTE # ''b'' @ [DQUOTE])"
  "slice_1_minus1 (DQUOTE # ''a'' @ DQUOTE # ''b'' @ [DQUOTE]) = ''a'' @ DQUOTE # ''b''"
  by code_simp+

lemma leading_header:
  "split_whitespace1 (''Hawk k='' @ DQUOTE # DQUOTE # ''a'' @ [DQUOTE])
     = [''Hawk'', ''k='' @ DQUOTE # DQUOTE # ''a'' @ [DQUOTE]]"
  "split_kvpairs (''k='' @ DQUOTE # DQUOTE # ''a'' @ [DQUOTE])
     = Inr [''k='' @ DQUOTE # DQUOTE # ''a'' @ [DQUOTE]]"
  "split_char1 CHR ''='' (strip (''k='' @ DQUOTE # DQUOTE # ''a'' @ [DQUOTE]))
     = [''k'', DQUOTE # DQUOTE # ''a'' @ [DQUOTE]]"
  "startswith_quote (DQUOTE # DQUOTE # ''a'' @ [DQUOTE])"
  "slice_1_minus1 (DQUOTE # DQUOTE # ''a'' @ [DQUOTE]) = DQUOTE # ''a''"
  by code_simp+

theorem parse_quoted_values_witness:
  "parse_authz_header
     (header_example\<lparr>http_authorization :=
        Some (''Hawk k='' @ DQUOTE # ''a'' @ BACKSLASH # DQUOTE # ''b'' @ [DQUOTE])\<rparr>)
     ([] :: unit list)
     = Inr (Parsed [''scheme'' \<mapsto> ''Hawk'', ''k'' \<mapsto> ''a'' @ DQUOTE # ''b''])
   \<and> parse_authz_header
     (header_example\<lparr>http_authorization := Some (''Hawk k='' @ [DQUOTE, DQUOTE])\<rparr>)
     ([] :: unit list)
     = Inr (Parsed [''scheme'' \<mapsto> ''Hawk'', ''k'' \<mapsto> []])
   \<and> parse_authz_header
     (header_example\<lparr>http_authorization :=
        Some (''Hawk k='' @ DQUOTE # ''a'' @ DQUOTE # ''b'' @ [DQUOTE])\<rparr>)
     ([] :: unit list)
     = Inl (ValueError Unescaped_quote)
   \<and> parse_authz_header
     (header_example\<lparr>http_authorization :=
        Some (''Hawk k='' @ DQUOTE # DQUOTE # ''a'' @ [DQUOTE])\<rparr>)
     ([] :: unit list)
     = Inl (ValueError Unescaped_quote)"
proof -
  have at0: "spec_unescaped_quote_at (DQUOTE # ''a'') 0"
    by (simp add: spec_unescaped_quote_at_def)
  note d = parse_quoted_values
    [where ?'d = unit
       and req = "header_example\<lparr>http_authorization :=
        Some (''Hawk k='' @ DQUOTE # DQUOTE # ''a'' @ [DQUOTE])\<rparr>"
       and authz = "''Hawk k='' @ DQUOTE # DQUOTE # ''a'' @ [DQUOTE]"
       and scheme_name = "''Hawk''"
       and kvpairs_str = "''k='' @ DQUOTE # DQUOTE # ''a'' @ [DQUOTE]"
       and kvpairs = "[''k='' @ DQUOTE # DQUOTE # ''a'' @ [DQUOTE]]"
       and kvpair = "''k='' @ DQUOTE # DQUOTE # ''a'' @ [DQUOTE]"
       and key = "''k''"
       and v = "DQUOTE # DQUOTE # ''a'' @ [DQUOTE]"
       and i = 0, THEN conjunct2, THEN conjunct2, THEN conjunct1]
  from d leading_header at0 have 4: "parse_authz_header
     (header_example\<lparr>http_authorization :=
        Some (''Hawk k='' @ DQUOTE # DQUOTE # ''a'' @ [DQUOTE])\<rparr>)
     ([] :: unit list)
     = Inl (ValueError Unescaped_quote)"
    by simp
  have at1: "spec_unescaped_quote_at (''a'' @ DQUOTE # ''b'') 1"
    by (simp add: spec_unescaped_quote_at_def)
  note a = parse_quoted_values
    [of "header_example\<lparr>http_authorization :=
        Some (''Hawk k='' @ DQUOTE # ''a'' @ BACKSLASH # DQUOTE # ''b'' @ [DQUOTE])\<rparr>"
      "[] :: unit list", THEN conjunct1]
  note b = parse_quoted_values
    [of "header_example\<lparr>http_authorization := Some (''Hawk k='' @ [DQUOTE, DQUOTE])\<rparr>"
      "[] :: unit list", THEN conjunct2, THEN conjunct1]
  note c = parse_quoted_values
    [where ?'d = unit
       and req = "header_example\<lparr>http_authorization :=
        Some (''Hawk k='' @ DQUOTE # ''a'' @ DQUOTE # ''b'' @ [DQUOTE])\<rparr>"
       and authz = "''Hawk k='' @ DQUOTE # ''a'' @ DQUOTE # ''b'' @ [DQUOTE]"
       and scheme_name = "''Hawk''"
       and kvpairs_str = "''k='' @ DQUOTE # ''a'' @ DQUOTE # ''b'' @ [DQUOTE]"
       and kvpairs = "[''k='' @ DQUOTE # ''a'' @ DQUOTE # ''b'' @ [DQUOTE]]"
       and kvpair = "''k='' @ DQUOTE # ''a'' @ DQUOTE # ''b'' @ [DQUOTE]"
       and key = "''k''"
       and v = "DQUOTE # ''a'' @ DQUOTE # ''b'' @ [DQUOTE]"
       and i = 1, THEN conjunct2, THEN conjunct2, THEN conjunct1]
  from a have 1: "parse_authz_header
     (header_example\<lparr>http_authorization :=
        Some (''Hawk k='' @ DQUOTE # ''a'' @ BACKSLASH # DQUOTE # ''b'' @ [DQUOTE])\<rparr>)
     ([] :: unit list)
     = Inr (Parsed [''scheme'' \<mapsto> ''Hawk'', ''k'' \<mapsto> ''a'' @ DQUOTE # ''b''])"
    by simp
  from b have 2: "parse_authz_header
     (header_example\<lparr>http_authorization := Some (''Hawk k='' @ [DQUOTE, DQUOTE])\<rparr>)
     ([] :: unit list)
     = Inr (Parsed [''scheme'' \<mapsto> ''Hawk'', ''k'' \<mapsto> []])"
    by simp
  from c interior_header at1 have 3: "parse_authz_header
     (header_example\<lparr>http_authorization :=
        Some (''Hawk k='' @ DQUOTE # ''a'' @ DQUOTE # ''b'' @ [DQUOTE])\<rparr>)
     ([] :: unit list)
     = Inl (ValueError Unescaped_quote)"
    by simp
  from 1 2 3 4 show ?thesis by simp
qed

text \<open>
  Claim C7. For every call of \<^verbatim>\<open>parse_authz_header\<close>: when the header is absent, when
  the last stitched chunk of the parameter string fails the grammar, or when a quoted
  value holds an unescaped quote, the call raises \<^verbatim>\<open>ValueError\<close> if no default is
  given and returns the first default if one is. Every error the call can raise is such
  a \<^verbatim>\<open>ValueError\<close>, so with a default it never raises; and when the header parses, the
  parsed map is returned whatever the default is.
\<close>

theorem parse_default_on_error:
  "(http_authorization req = None
      \<longrightarrow> parse_authz_header req ([] :: 'd list) = Inl (ValueError Missing_auth_parameters)
        \<and> parse_authz_header req ((d :: 'd) # ds) = Inr (Default d))
   \<and> (http_authorization req = Some authz
      \<and> split_whitespace1 authz = [scheme_name, kvpairs_str]
      \<and> kvpairs_str \<noteq> []
      \<and> \<not> spec_param_grammar (last (foldl stitch [] (split_char CHR '','' kvpairs_str)))
      \<longrightarrow> parse_authz_header req ([] :: 'd list) = Inl (ValueError Malformed_auth_parameters)
        \<and> parse_authz_header req (d # ds) = Inr (Default d))
   \<and> (http_authorization req = Some authz
      \<and> split_whitespace1 authz = [scheme_name, kvpairs_str]
      \<and> split_kvpairs kvpairs_str = Inr kvpairs
      \<and> kvpair \<in> set kvpairs
      \<and> split_char1 CHR ''='' (strip kvpair) = [key, v]
      \<and> startswith_quote v
      \<and> spec_unescaped_quote_at (slice_1_minus1 v) i
      \<longrightarrow> parse_authz_header req ([] :: 'd list) = Inl (ValueError Unescaped_quote)
        \<and> parse_authz_header req (d # ds) = Inr (Default d))
   \<and> (parse_authz_header req ([] :: 'd list) = Inl e
      \<longrightarrow> e \<in> ValueError ` {Missing_auth_parameters, Not_enough_values_to_unpack,
             Malformed_auth_parameters, Unescaped_quote}
        \<and> parse_authz_header req (d # ds) = Inr (Default d))
   \<and> (parse_authz_header req ([] :: 'd list) = Inr r
      \<longrightarrow> (\<exists>ps. r = Parsed ps) \<and> parse_authz_header req (d # ds) = Inr r)"
proof -
  have raised: "parse_authz_header req ([] :: 'd list) = Inl (ValueError x)
      \<and> parse_authz_header req (d # ds) = Inr (Default d)"
    if "parse_authz_header_try req = Inl (ValueError x)" for x
    using that by (simp add: parse_authz_header_def)
  have missing: "http_authorization req = None \<Longrightarrow>
      parse_authz_header_try req = Inl (ValueError Missing_auth_parameters)"
    by (simp add: parse_authz_header_try_def)
  have malformed: "parse_authz_header_try req = Inl (ValueError Malformed_auth_parameters)"
    if "http_authorization req = Some authz
      \<and> split_whitespace1 authz = [scheme_name, kvpairs_str]
      \<and> kvpairs_str \<noteq> []
      \<and> \<not> spec_param_grammar (last (foldl stitch [] (split_char CHR '','' kvpairs_str)))"
    using that parse_try_malformed [of req authz scheme_name kvpairs_str] by simp
  have unescaped: "parse_authz_header_try req = Inl (ValueError Unescaped_quote)"
    if "http_authorization req = Some authz
      \<and> split_whitespace1 authz = [scheme_name, kvpairs_str]
      \<and> split_kvpairs kvpairs_str = Inr kvpairs
      \<and> kvpair \<in> set kvpairs
      \<and> split_char1 CHR ''='' (strip kvpair) = [key, v]
      \<and> startswith_quote v
      \<and> spec_unescaped_quote_at (slice_1_minus1 v) i"
    by (rule parse_try_unescaped [of req authz scheme_name kvpairs_str kvpairs kvpair key v i])
      (simp_all only: that)
  have any_error: "e \<in> ValueError ` {Missing_auth_parameters, Not_enough_values_to_unpack,
             Malformed_auth_parameters, Unescaped_quote}
        \<and> parse_authz_header req (d # ds) = Inr (Default d)"
    if "parse_authz_header req ([] :: 'd list) = Inl e"
  proof -
    from that have t: "parse_authz_header_try req = Inl e"
      by (simp add: parse_header_cases split: sum.splits)
    then have "e \<in> ValueError ` {Missing_auth_parameters, Not_enough_values_to_unpack,
             Malformed_auth_parameters, Unescaped_quote}"
      by (rule parse_try_error)
    moreover from t have "parse_authz_header req (d # ds) = Inr (Default d)"
      by (simp add: parse_header_cases)
    ultimately show ?thesis ..
  qed
  have parsed: "(\<exists>ps. r = Parsed ps) \<and> parse_authz_header req (d # ds) = Inr r"
    if "parse_authz_header req ([] :: 'd list) = Inr r"
    using that by (cases "parse_authz_header_try req") (auto simp add: parse_header_cases)
  have c1: "http_authorization req = None
      \<longrightarrow> parse_authz_header req ([] :: 'd list) = Inl (ValueError Missing_auth_parameters)
        \<and> parse_authz_header req (d # ds) = Inr (Default d)"
    by (rule impI) (rule raised [OF missing])
  have c2: "http_authorization req = Some authz
      \<and> split_whitespace1 authz = [scheme_name, kvpairs_str]
      \<and> kvpairs_str \<noteq> []
      \<and> \<not> spec_param_grammar (last (foldl stitch [] (split_char CHR '','' kvpairs_str)))
      \<longrightarrow> parse_authz_header req ([] :: 'd list) = Inl (ValueError Malformed_auth_parameters)
        \<and> parse_authz_header req (d # ds) = Inr (Default d)"
    by (rule impI) (rule raised [OF malformed])
  have c3: "http_authorization req = Some authz
      \<and> split_whitespace1 authz = [scheme_name, kvpairs_str]
      \<and> split_kvpairs kvpairs_str = Inr kvpairs
      \<and> kvpair \<in> set kvpairs
      \<and> split_char1 CHR ''='' (strip kvpair) = [key, v]
      \<and> startswith_quote v
      \<and> spec_unescaped_quote_at (slice_1_minus1 v) i
      \<longrightarrow> parse_authz_header req ([] :: 'd list) = Inl (ValueError Unescaped_quote)
        \<and> parse_authz_header req (d # ds) = Inr (Default d)"
    by (rule impI) (rule raised [OF unescaped])
  have c4: "parse_authz_header req ([] :: 'd list) = Inl e
      \<longrightarrow> e \<in> ValueError ` {Missing_auth_parameters, Not_enough_values_to_unpack,
             Malformed_auth_parameters, Unescaped_quote}
        \<and> parse_authz_header req (d # ds) = Inr (Default d)"
    by (rule impI) (rule any_error)
  have c5: "parse_authz_header req ([] :: 'd list) = Inr r
      \<longrightarrow> (\<exists>ps. r = Parsed ps) \<and> parse_authz_header req (d # ds) = Inr r"
    by (rule impI) (rule parsed)
  from c1 c2 c3 c4 c5 show ?thesis by (intro conjI) assumption+
qed

lemma raw_token_header:
  "split_whitespace1 ''Broken raw-token'' = [''Broken'', ''raw-token'']"
  "last (foldl stitch [] (split_char CHR '','' ''raw-token'')) = ''raw-token''"
  "\<not> AUTH_PARAM_RE_match ''raw-token''"
  by code_simp+

theorem parse_default_on_error_witness:
  "parse_authz_header header_example ([] :: nat list) = Inl (ValueError Missing_auth_parameters)
   \<and> parse_authz_header header_example [7 :: nat] = Inr (Default 7)
   \<and> parse_authz_header (header_example\<lparr>http_authorization := Some ''Broken raw-token''\<rparr>)
       ([] :: nat list) = Inl (ValueError Malformed_auth_parameters)
   \<and> parse_authz_header (header_example\<lparr>http_authorization := Some ''Broken raw-token''\<rparr>)
       [7 :: nat] = Inr (Default 7)
   \<and> parse_authz_header
       (header_example\<lparr>http_authorization := Some (''Hawk k='' @ [DQUOTE, DQUOTE])\<rparr>)
       [7 :: nat] = Inr (Parsed [''scheme'' \<mapsto> ''Hawk'', ''k'' \<mapsto> []])"
proof -
  note a = parse_default_on_error [where ?'d = nat and req = header_example and d = 7 and ds = "[]",
      THEN conjunct1]
  note b = parse_default_on_error
    [where ?'d = nat and d = 7 and ds = "[]"
       and req = "header_example\<lparr>http_authorization := Some ''Broken raw-token''\<rparr>"
       and authz = "''Broken raw-token''" and scheme_name = "''Broken''"
       and kvpairs_str = "''raw-token''",
      THEN conjunct2, THEN conjunct1]
  note c = parse_default_on_error
    [where ?'d = nat and d = 7 and ds = "[]"
       and req = "header_example\<lparr>http_authorization := Some (''Hawk k='' @ [DQUOTE, DQUOTE])\<rparr>"
       and r = "Parsed [''scheme'' \<mapsto> ''Hawk'', ''k'' \<mapsto> []]",
      THEN conjunct2, THEN conjunct2, THEN conjunct2, THEN conjunct2]
  have ok: "parse_authz_header
       (header_example\<lparr>http_authorization := Some (''Hawk k='' @ [DQUOTE, DQUOTE])\<rparr>)
       ([] :: nat list) = Inr (Parsed [''scheme'' \<mapsto> ''Hawk'', ''k'' \<mapsto> []])"
    using parse_try_pair [OF _ empty_header] empty_params by (simp add: parse_authz_header_def)
  from a have 1: "parse_authz_header header_example ([] :: nat list)
        = Inl (ValueError Missing_auth_parameters)
      \<and> parse_authz_header header_example [7 :: nat] = Inr (Default 7)"
    by (simp add: header_example_def)
  from b raw_token_header have 2:
    "parse_authz_header (header_example\<lparr>http_authorization := Some ''Broken raw-token''\<rparr>)
       ([] :: nat list) = Inl (ValueError Malformed_auth_parameters)
     \<and> parse_authz_header (header_example\<lparr>http_authorization := Some ''Broken raw-token''\<rparr>)
       [7 :: nat] = Inr (Default 7)"
    by (simp add: AUTH_PARAM_RE_match_iff)
  from c ok have 3: "parse_authz_header
       (header_example\<lparr>http_authorization := Some (''Hawk k='' @ [DQUOTE, DQUOTE])\<rparr>)
       [7 :: nat] = Inr (Parsed [''scheme'' \<mapsto> ''Hawk'', ''k'' \<mapsto> []])"
    by simp
  from 1 2 3 show ?thesis by simp
qed

end
